theory Spec2Isabelle
  imports Complex_Main "HOL-Library.AList"
begin

section \<open>REST client: retry policy and backoff\<close>

text \<open>
  The retry part of the client package. A \<open>time.Duration\<close> is a count of nanoseconds and
  is modelled as an \<open>int\<close>; a Go \<open>int\<close> is an \<open>int\<close> as well. The \<open>float64\<close> backoff
  factor is modelled as a \<open>real\<close>: every finite \<open>float64\<close> is a real number, the values
  NaN and the infinities have no counterpart, and \<open>float64\<close> rounding is not modelled, so
  the arithmetic of the model agrees with the program wherever the intermediate values are
  exactly representable (multiplication by zero, small integers). A product beyond the range
  of \<open>int64\<close> converts to a value that Go leaves to the implementation; the model, whose
  integers are unbounded, says nothing of the program for such policies. The theorems below
  are about the round of the first retry, where the product is zero for every finite factor,
  and about the default policy, whose products are small integers.
\<close>

record RetryConfig =
  MaxAttempts :: int
  InitialBackoff :: int
  MaxBackoff :: int
  BackoffFactor :: real

text \<open>The conversion \<open>time.Duration(f)\<close> of a finite \<open>float64\<close> drops the fraction.\<close>

definition Duration_of_float :: "real \<Rightarrow> int" where
  "Duration_of_float x = (if 0 \<le> x then \<lfloor>x\<rfloor> else \<lceil>x\<rceil>)"

definition millisecond :: int where
  "millisecond = 1000000"

definition second :: int where
  "second = 1000000000"

subsection \<open>The client and its builder\<close>

text \<open>
  The transport of the underlying \<open>http.Client\<close>: a transport supplied by the caller (an
  opaque handle), the \<open>http.Transport\<close> that \<open>Build\<close> creates from the pool settings, or
  either of them wrapped for tracing.
\<close>

datatype transport =
    CustomTransport nat
  | HttpTransport int int int
  | Traced transport

record http_Client =
  Timeout :: int
  Transport :: transport

record Counts =
  Requests :: nat
  TotalFailures :: nat

record CircuitBreakerConfig =
  Name :: string
  MaxRequests :: nat
  Interval :: int
  cb_Timeout :: int
  ReadyToTrip :: "Counts \<Rightarrow> bool"

text \<open>
  A Go map is a reference: the builder and the client it builds hold the same
  \<open>defaultHeaders\<close> map. The maps live in a store, a list indexed by address, and the
  records hold addresses. A map is an association list; \<open>m[k] = v\<close> is \<open>AList.update\<close>, and a
  \<open>range\<close> loop visits the entries in list order (Go leaves the order open; the theorems
  hold for every list, hence for every order). A nil pointer and a nil map are \<open>None\<close>.
\<close>

type_synonym strmap = "(string \<times> string) list"
type_synonym store = "strmap list"

record RESTClient =
  rc_client :: http_Client
  rc_baseURL :: string
  rc_defaultHeaders :: "nat option"
  rc_retry :: "RetryConfig option"
  rc_circuitBreaker :: "CircuitBreakerConfig option"

record ClientBuilder =
  b_timeout :: int
  b_maxIdleConns :: int
  b_maxIdleConnsPerHost :: int
  b_idleConnTimeout :: int
  b_enableDatadog :: bool
  b_transport :: "transport option"
  b_baseURL :: string
  b_defaultHeaders :: "nat option"
  b_retry :: "RetryConfig option"
  b_circuitBreaker :: "CircuitBreakerConfig option"

definition getMaxAttempts :: "RESTClient \<Rightarrow> int" where
  "getMaxAttempts rc = (case rc_retry rc of None \<Rightarrow> 1 | Some p \<Rightarrow> MaxAttempts p)"

definition calculateBackoff :: "RESTClient \<Rightarrow> int \<Rightarrow> int" where
  "calculateBackoff rc attempt =
     (case rc_retry rc of
        None \<Rightarrow> 0
      | Some p \<Rightarrow>
          (let delay = Duration_of_float
                 (real_of_int (InitialBackoff p) * (BackoffFactor p * real_of_int (attempt - 1)))
           in if delay > MaxBackoff p then MaxBackoff p else delay))"

definition shouldRetry :: "int \<Rightarrow> bool" where
  "shouldRetry statusCode \<longleftrightarrow> statusCode \<ge> 500 \<or> statusCode = 429 \<or> statusCode = 408"

text \<open>The policy that \<open>WithDefaultRetry\<close> installs.\<close>

definition defaultRetry :: RetryConfig where
  "defaultRetry = \<lparr> MaxAttempts = 3, InitialBackoff = 100 * millisecond,
     MaxBackoff = 5 * second, BackoffFactor = 2 \<rparr>"

text \<open>
  The delay that the specification asks for before attempt number \<open>n\<close> (counted from one):
  \<open>min(maxBackoff, initialBackoff * backoffFactor^(n-1))\<close>.
\<close>

definition spec_backoff :: "RetryConfig \<Rightarrow> nat \<Rightarrow> int" where
  "spec_backoff p n =
     min (MaxBackoff p)
         (Duration_of_float (real_of_int (InitialBackoff p) * BackoffFactor p ^ (n - 1)))"


subsection \<open>Maps in the store\<close>

text \<open>
  Reading a nil map finds no entry; assigning to an entry of a nil map panics (\<open>None\<close>).
  An address is that of a map of the store when it is below the length of the store, which is
  what \<open>allocated\<close> says further down; the theorems are about such addresses.
\<close>

definition map_entries :: "store \<Rightarrow> nat option \<Rightarrow> strmap" where
  "map_entries st m = (case m of None \<Rightarrow> [] | Some a \<Rightarrow> st ! a)"

definition map_assign :: "nat option \<Rightarrow> string \<Rightarrow> string \<Rightarrow> store \<Rightarrow> store option" where
  "map_assign m k v st =
     (case m of None \<Rightarrow> None | Some a \<Rightarrow> Some (st[a := AList.update k v (st ! a)]))"

fun map_assign_all :: "nat option \<Rightarrow> strmap \<Rightarrow> store \<Rightarrow> store option" where
  "map_assign_all m [] st = Some st"
| "map_assign_all m ((k, v) # kvs) st =
     (case map_assign m k v st of None \<Rightarrow> None | Some st' \<Rightarrow> map_assign_all m kvs st')"

subsection \<open>Strings\<close>

definition TrimSuffix :: "string \<Rightarrow> string \<Rightarrow> string" where
  "TrimSuffix s suffix =
     (if length suffix \<le> length s \<and> drop (length s - length suffix) s = suffix
      then take (length s - length suffix) s else s)"

definition TrimPrefix :: "string \<Rightarrow> string \<Rightarrow> string" where
  "TrimPrefix s prefix =
     (if take (length prefix) s = prefix then drop (length prefix) s else s)"

subsection \<open>The builder's methods\<close>

text \<open>
  A builder method changes the builder in place and returns it; the model returns the
  changed record, and the changed store where the method writes to the header map.
\<close>

definition NewClientBuilder :: "store \<Rightarrow> ClientBuilder \<times> store" where
  "NewClientBuilder st =
     (\<lparr> b_timeout = 30 * second, b_maxIdleConns = 100, b_maxIdleConnsPerHost = 100,
        b_idleConnTimeout = 90 * second, b_enableDatadog = False, b_transport = None,
        b_baseURL = [], b_defaultHeaders = Some (length st), b_retry = None,
        b_circuitBreaker = None \<rparr>,
      st @ [Nil])"

definition WithTimeout :: "int \<Rightarrow> ClientBuilder \<Rightarrow> ClientBuilder" where
  "WithTimeout timeout b = b\<lparr> b_timeout := timeout \<rparr>"

definition WithMaxIdleConns :: "int \<Rightarrow> ClientBuilder \<Rightarrow> ClientBuilder" where
  "WithMaxIdleConns n b = b\<lparr> b_maxIdleConns := n \<rparr>"

definition WithMaxIdleConnsPerHost :: "int \<Rightarrow> ClientBuilder \<Rightarrow> ClientBuilder" where
  "WithMaxIdleConnsPerHost n b = b\<lparr> b_maxIdleConnsPerHost := n \<rparr>"

definition WithIdleConnTimeout :: "int \<Rightarrow> ClientBuilder \<Rightarrow> ClientBuilder" where
  "WithIdleConnTimeout t b = b\<lparr> b_idleConnTimeout := t \<rparr>"

definition WithDatadog :: "bool \<Rightarrow> ClientBuilder \<Rightarrow> ClientBuilder" where
  "WithDatadog enable b = b\<lparr> b_enableDatadog := enable \<rparr>"

definition WithTransport :: "transport option \<Rightarrow> ClientBuilder \<Rightarrow> ClientBuilder" where
  "WithTransport t b = b\<lparr> b_transport := t \<rparr>"

definition WithBaseURL :: "string \<Rightarrow> ClientBuilder \<Rightarrow> ClientBuilder" where
  "WithBaseURL url b = b\<lparr> b_baseURL := TrimSuffix url ''/'' \<rparr>"

definition WithDefaultHeader :: "string \<Rightarrow> string \<Rightarrow> ClientBuilder \<Rightarrow> store \<Rightarrow> store option" where
  "WithDefaultHeader key val b st = map_assign (b_defaultHeaders b) key val st"

definition WithDefaultHeaders :: "strmap \<Rightarrow> ClientBuilder \<Rightarrow> store \<Rightarrow> store option" where
  "WithDefaultHeaders headers b st = map_assign_all (b_defaultHeaders b) headers st"

definition WithRetry :: "RetryConfig \<Rightarrow> ClientBuilder \<Rightarrow> ClientBuilder" where
  "WithRetry config b = b\<lparr> b_retry := Some config \<rparr>"

definition WithDefaultRetry :: "ClientBuilder \<Rightarrow> ClientBuilder" where
  "WithDefaultRetry b = b\<lparr> b_retry := Some defaultRetry \<rparr>"

definition WithCircuitBreaker :: "CircuitBreakerConfig \<Rightarrow> ClientBuilder \<Rightarrow> ClientBuilder" where
  "WithCircuitBreaker config b = b\<lparr> b_circuitBreaker := Some config \<rparr>"

text \<open>
  The default trip predicate divides two counters as \<open>float64\<close> and compares with 0.6; the
  counters are below \<open>2^32\<close>, where the rounded quotient and the exact one fall on the same
  side of 0.6. With no request yet the quotient is NaN and the conjunction is false.
\<close>

definition defaultReadyToTrip :: "Counts \<Rightarrow> bool" where
  "defaultReadyToTrip counts \<longleftrightarrow>
     Requests counts \<ge> 3 \<and> real (TotalFailures counts) / real (Requests counts) \<ge> 6 / 10"

definition WithDefaultCircuitBreaker :: "string \<Rightarrow> ClientBuilder \<Rightarrow> ClientBuilder" where
  "WithDefaultCircuitBreaker name b =
     b\<lparr> b_circuitBreaker := Some \<lparr> Name = name, MaxRequests = 3, Interval = 10 * second,
            cb_Timeout = 60 * second, ReadyToTrip = defaultReadyToTrip \<rparr> \<rparr>"

definition Build :: "ClientBuilder \<Rightarrow> RESTClient" where
  "Build b =
     (let transport = (case b_transport b of
                         Some t \<Rightarrow> t
                       | None \<Rightarrow> HttpTransport (b_maxIdleConns b) (b_maxIdleConnsPerHost b)
                                   (b_idleConnTimeout b));
          client = \<lparr> Timeout = b_timeout b, Transport = transport \<rparr>;
          client = (if b_enableDatadog b then client\<lparr> Transport := Traced (Transport client) \<rparr>
                    else client)
      in \<lparr> rc_client = client, rc_baseURL = b_baseURL b, rc_defaultHeaders = b_defaultHeaders b,
           rc_retry = b_retry b,
           rc_circuitBreaker =
             (case b_circuitBreaker b of
                None \<Rightarrow> None
              | Some c \<Rightarrow> Some \<lparr> Name = Name c, MaxRequests = MaxRequests c,
                    Interval = Interval c, cb_Timeout = cb_Timeout c,
                    ReadyToTrip = ReadyToTrip c \<rparr>) \<rparr>)"

definition GetInstance :: "RESTClient \<Rightarrow> http_Client" where
  "GetInstance rc = rc_client rc"

definition buildURL :: "RESTClient \<Rightarrow> string \<Rightarrow> string" where
  "buildURL rc path =
     (if rc_baseURL rc = [] then path
      else rc_baseURL rc @ ''/'' @ TrimPrefix path ''/'')"


subsection \<open>Request headers\<close>

text \<open>
  \<open>http.Header\<close> maps a canonical key to a list of values. \<open>Set\<close> and \<open>Get\<close> pass the key
  through \<open>textproto.CanonicalMIMEHeaderKey\<close> of the Go standard library: a key made of
  header-field bytes only gets an upper-case first letter and an upper-case letter after
  each hyphen, every other letter in lower case; any other key is left as it is.
\<close>

definition validHeaderFieldByte :: "char \<Rightarrow> bool" where
  "validHeaderFieldByte c \<longleftrightarrow>
     c \<in> set (''0123456789abcdefghijklmnopqrstuvwxyzABCDEFGHIJKLMNOPQRSTUVWXYZ'' @
              [CHR ''!'', CHR ''#'', CHR ''$'', CHR ''%'', CHR ''&'', CHR 0x27, CHR ''*'',
               CHR ''+'', CHR ''-'', CHR ''.'', CHR ''^'', CHR ''_'', CHR 0x60, CHR ''|'',
               CHR ''~''])"

definition toUpper :: "char \<Rightarrow> char" where
  "toUpper c = (if (97 :: nat) \<le> of_char c \<and> of_char c \<le> (122 :: nat) then char_of (of_char c - (32 :: nat)) else c)"

definition toLower :: "char \<Rightarrow> char" where
  "toLower c = (if (65 :: nat) \<le> of_char c \<and> of_char c \<le> (90 :: nat) then char_of (of_char c + (32 :: nat)) else c)"

fun canonical_from :: "bool \<Rightarrow> string \<Rightarrow> string" where
  "canonical_from upper [] = []"
| "canonical_from upper (c # cs) =
     (if upper then toUpper c # canonical_from (toUpper c = CHR ''-'') cs
      else toLower c # canonical_from (toLower c = CHR ''-'') cs)"

definition CanonicalMIMEHeaderKey :: "string \<Rightarrow> string" where
  "CanonicalMIMEHeaderKey s =
     (if list_all validHeaderFieldByte s then canonical_from True s else s)"

type_synonym Header = "(string \<times> string list) list"

definition Header_Set :: "string \<Rightarrow> string \<Rightarrow> Header \<Rightarrow> Header" where
  "Header_Set key val h = AList.update (CanonicalMIMEHeaderKey key) [val] h"

definition Header_Get :: "Header \<Rightarrow> string \<Rightarrow> string" where
  "Header_Get h key =
     (case map_of h (CanonicalMIMEHeaderKey key) of
        None \<Rightarrow> []
      | Some [] \<Rightarrow> []
      | Some (v # vs) \<Rightarrow> v)"

fun Header_Set_all :: "strmap \<Rightarrow> Header \<Rightarrow> Header" where
  "Header_Set_all [] h = h"
| "Header_Set_all ((k, v) # kvs) h = Header_Set_all kvs (Header_Set k v h)"


subsection \<open>Building a request\<close>

text \<open>
  The body of a call is an \<open>interface{}\<close>: nil, a string, a byte slice, an \<open>io.Reader\<close> (an
  opaque handle), or any other value, of a type \<open>'a\<close>. The body handed to the transport is a
  reader over a string, over bytes, or the caller's own reader.
\<close>

datatype 'a body = NilBody | StringBody string | BytesBody string | ReaderBody nat | ValueBody 'a

datatype reader = StringsReader string | BytesReader string | CallerReader nat

datatype go_context = Background | CallerContext nat

record 'a RequestConfig =
  cfg_Method :: string
  cfg_URL :: string
  cfg_Body :: "'a body"
  cfg_Headers :: strmap
  cfg_QueryParams :: strmap
  cfg_Timeout :: int
  cfg_Context :: "go_context option"

record http_Request =
  req_ctx :: go_context
  req_Method :: string
  req_URL :: string
  req_Body :: "reader option"
  req_Header :: Header
  req_Query :: "(string \<times> string list) list option"

text \<open>
  What \<open>createRequest\<close> takes from the standard library: \<open>json.Marshal\<close> on a body value
  (\<open>Inl\<close> its error), the error of \<open>http.NewRequestWithContext\<close> for a method and a URL
  (\<open>None\<close> when the request is created), and the query values that \<open>req.URL.Query()\<close>
  parses out of a URL. \<open>req_Query\<close> is \<open>None\<close> while the query of the URL is untouched, and
  holds the values that are encoded into \<open>RawQuery\<close> otherwise.
\<close>

record 'a stdlib =
  json_Marshal :: "'a \<Rightarrow> string + string"
  http_NewRequest :: "string \<Rightarrow> string \<Rightarrow> string option"
  url_Query :: "string \<Rightarrow> (string \<times> string list) list"

datatype cause = AttemptError string | HTTPStatus int

datatype error =
    MarshalBodyError string
  | CreateRequestError string
  | ExecuteError string
  | ContextError string
  | MaxRetriesExceeded "cause option"

fun Values_Set_all :: "strmap \<Rightarrow> (string \<times> string list) list \<Rightarrow> (string \<times> string list) list" where
  "Values_Set_all [] q = q"
| "Values_Set_all ((k, v) # kvs) q = Values_Set_all kvs (AList.update k [v] q)"

definition application_json :: string where
  "application_json = ''application/json''"

definition is_raw_body :: "'a body \<Rightarrow> bool" where
  "is_raw_body b = (case b of StringBody s \<Rightarrow> True | BytesBody bs \<Rightarrow> True
                     | ReaderBody r \<Rightarrow> True | _ \<Rightarrow> False)"

definition createRequest ::
  "'a stdlib \<Rightarrow> store \<Rightarrow> RESTClient \<Rightarrow> 'a RequestConfig \<Rightarrow> error + http_Request" where
  "createRequest lib st rc config =
     (let url = buildURL rc (cfg_URL config);
          body = (case cfg_Body config of
                    NilBody \<Rightarrow> Inr None
                  | StringBody v \<Rightarrow> Inr (Some (StringsReader v))
                  | BytesBody v \<Rightarrow> Inr (Some (BytesReader v))
                  | ReaderBody v \<Rightarrow> Inr (Some (CallerReader v))
                  | ValueBody v \<Rightarrow>
                      (case json_Marshal lib v of
                         Inl err \<Rightarrow> Inl (MarshalBodyError err)
                       | Inr jsonData \<Rightarrow> Inr (Some (BytesReader jsonData))))
      in case body of
           Inl err \<Rightarrow> Inl err
         | Inr body \<Rightarrow>
            (let ctx = (case cfg_Context config of None \<Rightarrow> Background | Some c \<Rightarrow> c)
             in case http_NewRequest lib (cfg_Method config) url of
                  Some err \<Rightarrow> Inl (CreateRequestError err)
                | None \<Rightarrow>
                   (let h = Header_Set_all (map_entries st (rc_defaultHeaders rc)) [];
                        h = Header_Set_all (cfg_Headers config) h;
                        q = (if length (cfg_QueryParams config) > 0
                             then Some (Values_Set_all (cfg_QueryParams config) (url_Query lib url))
                             else None);
                        h = (if cfg_Body config \<noteq> NilBody \<and> Header_Get h ''Content-Type'' = []
                             then (if is_raw_body (cfg_Body config) then h
                                   else Header_Set ''Content-Type'' application_json h)
                             else h)
                    in Inr \<lparr> req_ctx = ctx, req_Method = cfg_Method config, req_URL = url,
                             req_Body = body, req_Header = h, req_Query = q \<rparr>)))"


subsection \<open>Executing a request\<close>

record Response =
  resp_Body :: string
  resp_StatusCode :: int
  resp_Headers :: Header

text \<open>
  What happens outside the client while a call runs. \<open>executeRequest w k\<close> is what the
  \<open>k\<close>-th dispatch of the request returns (the count starts at zero): an error (from the
  circuit breaker, the transport or the reading of the body) or the wrapped response.
  \<open>backoff_select w c k d\<close> is the outcome of the \<open>select\<close> between the timer of the delay
  \<open>d\<close> and the \<open>Done\<close> channel of the caller's context \<open>c\<close> before the loop's round \<open>k\<close>:
  \<open>None\<close> when the timer fires, and \<open>Some e\<close> when the context is done first, with \<open>e\<close> the
  error of that context.
\<close>

record world =
  executeRequest :: "nat \<Rightarrow> string + Response"
  backoff_select :: "nat \<Rightarrow> nat \<Rightarrow> int \<Rightarrow> string option"

text \<open>
  The \<open>select\<close> of the loop is on the context of the request, \<open>req.Context()\<close>. The \<open>Done\<close>
  channel of \<open>context.Background()\<close> is nil and never ready, so a request with that context
  always waits for the timer; for a context of the caller the outcome is the world's.
\<close>

definition select_Done :: "world \<Rightarrow> go_context \<Rightarrow> nat \<Rightarrow> int \<Rightarrow> string option" where
  "select_Done w ctx k d =
     (case ctx of Background \<Rightarrow> None | CallerContext c \<Rightarrow> backoff_select w c k d)"

text \<open>What a call did, in order: the delays it waited for and the dispatches it made.\<close>

datatype event = Wait int | Dispatch nat

fun is_Dispatch :: "event \<Rightarrow> bool" where
  "is_Dispatch (Dispatch k) = True"
| "is_Dispatch (Wait d) = False"

definition attempts :: "event list \<Rightarrow> nat" where
  "attempts tr = length (filter is_Dispatch tr)"

text \<open>
  The loop of \<open>executeWithRetry\<close> from the round \<open>attempt\<close> on, with the value of \<open>lastErr\<close>
  at that point (\<open>None\<close> is nil).
\<close>

function executeWithRetry_from ::
  "RESTClient \<Rightarrow> world \<Rightarrow> http_Request \<Rightarrow> int \<Rightarrow> cause option
     \<Rightarrow> (error + Response) \<times> event list" where
  "executeWithRetry_from rc w req attempt lastErr =
     (if attempt < getMaxAttempts rc then
        (case (if attempt > 0
               then select_Done w (req_ctx req) (nat attempt) (calculateBackoff rc attempt)
               else None) of
           Some ctxErr \<Rightarrow> (Inl (ContextError ctxErr), [Wait (calculateBackoff rc attempt)])
         | None \<Rightarrow>
            apsnd ((@) ((if attempt > 0 then [Wait (calculateBackoff rc attempt)] else []) @
                        [Dispatch (nat attempt)]))
              (case executeRequest w (nat attempt) of
                 Inr resp \<Rightarrow>
                   if \<not> shouldRetry (resp_StatusCode resp) then (Inr resp, [])
                   else executeWithRetry_from rc w req (attempt + 1)
                          (Some (HTTPStatus (resp_StatusCode resp)))
               | Inl err \<Rightarrow>
                   executeWithRetry_from rc w req (attempt + 1) (Some (AttemptError err))))
      else (Inl (MaxRetriesExceeded lastErr), []))"
  by pat_completeness auto
termination
  by (relation "measure (\<lambda>(rc, w, req, attempt, lastErr). nat (getMaxAttempts rc - attempt))")
     auto

definition executeWithRetry ::
  "RESTClient \<Rightarrow> world \<Rightarrow> http_Request \<Rightarrow> (error + Response) \<times> event list" where
  "executeWithRetry rc w req = executeWithRetry_from rc w req 0 None"

definition Request ::
  "'a stdlib \<Rightarrow> store \<Rightarrow> RESTClient \<Rightarrow> world \<Rightarrow> 'a RequestConfig
     \<Rightarrow> (error + Response) \<times> event list" where
  "Request lib st rc w config =
     (case createRequest lib st rc config of
        Inl err \<Rightarrow> (Inl err, [])
      | Inr req \<Rightarrow>
          if rc_retry rc \<noteq> None then executeWithRetry rc w req
          else (case executeRequest w 0 of
                  Inl err \<Rightarrow> (Inl (ExecuteError err), [Dispatch 0])
                | Inr resp \<Rightarrow> (Inr resp, [Dispatch 0])))"


subsection \<open>Calls on a builder\<close>

text \<open>
  The configuration methods of \<open>ClientBuilder\<close> as data, so that a chain of calls is a list.
  A call that panics (an assignment to an entry of a nil map) gives \<open>None\<close>.
\<close>

datatype builder_call =
    CallWithTimeout int
  | CallWithMaxIdleConns int
  | CallWithMaxIdleConnsPerHost int
  | CallWithIdleConnTimeout int
  | CallWithDatadog bool
  | CallWithTransport "transport option"
  | CallWithBaseURL string
  | CallWithDefaultHeader string string
  | CallWithDefaultHeaders strmap
  | CallWithRetry RetryConfig
  | CallWithDefaultRetry
  | CallWithCircuitBreaker CircuitBreakerConfig
  | CallWithDefaultCircuitBreaker string

fun builder_step :: "builder_call \<Rightarrow> ClientBuilder \<times> store \<Rightarrow> (ClientBuilder \<times> store) option" where
  "builder_step (CallWithTimeout t) (b, st) = Some (WithTimeout t b, st)"
| "builder_step (CallWithMaxIdleConns n) (b, st) = Some (WithMaxIdleConns n b, st)"
| "builder_step (CallWithMaxIdleConnsPerHost n) (b, st) = Some (WithMaxIdleConnsPerHost n b, st)"
| "builder_step (CallWithIdleConnTimeout t) (b, st) = Some (WithIdleConnTimeout t b, st)"
| "builder_step (CallWithDatadog e) (b, st) = Some (WithDatadog e b, st)"
| "builder_step (CallWithTransport t) (b, st) = Some (WithTransport t b, st)"
| "builder_step (CallWithBaseURL u) (b, st) = Some (WithBaseURL u b, st)"
| "builder_step (CallWithDefaultHeader k v) (b, st) =
     (case WithDefaultHeader k v b st of None \<Rightarrow> None | Some st' \<Rightarrow> Some (b, st'))"
| "builder_step (CallWithDefaultHeaders hs) (b, st) =
     (case WithDefaultHeaders hs b st of None \<Rightarrow> None | Some st' \<Rightarrow> Some (b, st'))"
| "builder_step (CallWithRetry c) (b, st) = Some (WithRetry c b, st)"
| "builder_step CallWithDefaultRetry (b, st) = Some (WithDefaultRetry b, st)"
| "builder_step (CallWithCircuitBreaker c) (b, st) = Some (WithCircuitBreaker c b, st)"
| "builder_step (CallWithDefaultCircuitBreaker n) (b, st) = Some (WithDefaultCircuitBreaker n b, st)"

fun builder_run :: "builder_call list \<Rightarrow> ClientBuilder \<times> store \<Rightarrow> (ClientBuilder \<times> store) option" where
  "builder_run [] bs = Some bs"
| "builder_run (c # cs) bs =
     (case builder_step c bs of None \<Rightarrow> None | Some bs' \<Rightarrow> builder_run cs bs')"

text \<open>
  What a caller can observe of a built client: its fields, with the entries of its header map
  read from the store.
\<close>

definition client_state ::
  "store \<Rightarrow> RESTClient
     \<Rightarrow> http_Client \<times> string \<times> strmap \<times> RetryConfig option \<times> CircuitBreakerConfig option" where
  "client_state st rc =
     (rc_client rc, rc_baseURL rc, map_entries st (rc_defaultHeaders rc), rc_retry rc,
      rc_circuitBreaker rc)"

definition allocated :: "store \<Rightarrow> nat option \<Rightarrow> bool" where
  "allocated st m = (case m of None \<Rightarrow> True | Some a \<Rightarrow> a < length st)"

subsection \<open>Shared configuration\<close>

text \<open>
  Modelled from the spec: \<open>FromSharedClient\<close>, which the tests and the package
  documentation call as \<open>FromSharedClient(parent, name, url)\<close>, is not among the sources.
  The specification: given a finalized client and a new target base URL (or none, to reuse
  the parent's base URL), produce a new builder pre-populated with the parent's default
  headers, timeout, retry policy and circuit-breaker policy; the new builder copies them.
  The model starts from \<open>NewClientBuilder\<close>, whose header map is a new one, fills that map
  with the parent's entries and takes the other four settings from the parent. The
  specification gives the name no role.
\<close>

definition FromSharedClient ::
  "RESTClient \<Rightarrow> string \<Rightarrow> string \<Rightarrow> store \<Rightarrow> ClientBuilder \<times> store" where
  "FromSharedClient parent name url st =
     (let (b, st') = NewClientBuilder st
      in (b\<lparr> b_baseURL := (if url = [] then rc_baseURL parent else url),
             b_timeout := Timeout (rc_client parent),
             b_retry := rc_retry parent,
             b_circuitBreaker := rc_circuitBreaker parent \<rparr>,
          st'[length st := map_entries st (rc_defaultHeaders parent)]))"

section \<open>Logger: retrieval from a context\<close>

text \<open>
  \<open>FromContext\<close> is the same function in the packages \<open>logger\<close> and \<open>log\<close>. A
  \<open>*zap.Logger\<close> is a core (an opaque handle) with the fields added so far; \<open>With\<close> returns a
  child with more fields, and dereferences its receiver when there is a field to add. A
  context is the chain of its key-value pairs, innermost first; a nil context, a nil logger
  and the nil value of a missing key are \<open>None\<close>.
\<close>

datatype zap_Logger = ZapLogger nat "(string \<times> string) list"

datatype ctx_key = loggerKey | StringKey string | OtherKey nat

datatype ctx_value = LoggerValue "zap_Logger option" | StringValue string | OtherValue nat

type_synonym log_context = "(ctx_key \<times> ctx_value) list"

datatype panic = NilPointerDereference | NilParentContext

definition ctx_Value :: "log_context \<Rightarrow> ctx_key \<Rightarrow> ctx_value option" where
  "ctx_Value ctx key = map_of ctx key"

definition Logger_With :: "zap_Logger option \<Rightarrow> (string \<times> string) list \<Rightarrow> panic + zap_Logger option" where
  "Logger_With logger new_fields =
     (if new_fields = [] then Inr logger
      else case logger of
             None \<Rightarrow> Inl NilPointerDereference
           | Some (ZapLogger core fs) \<Rightarrow> Inr (Some (ZapLogger core (fs @ new_fields))))"

definition WithContext :: "log_context option \<Rightarrow> zap_Logger option \<Rightarrow> panic + log_context" where
  "WithContext ctx logger =
     (case ctx of
        None \<Rightarrow> Inl NilParentContext
      | Some c \<Rightarrow> Inr ((loggerKey, LoggerValue logger) # c))"

text \<open>The first argument is the package variable \<open>Logger\<close>, nil until \<open>InitLogger\<close> has run.\<close>

definition FromContext :: "zap_Logger option \<Rightarrow> log_context option \<Rightarrow> panic + zap_Logger option" where
  "FromContext Logger ctx =
     (case ctx of
        None \<Rightarrow> Inr Logger
      | Some c \<Rightarrow>
         (case ctx_Value c loggerKey of
            Some (LoggerValue logger) \<Rightarrow> Inr logger
          | _ \<Rightarrow>
             (case ctx_Value c (StringKey ''RequestID'') of
                Some (StringValue requestID) \<Rightarrow>
                  if requestID \<noteq> [] then Logger_With Logger [(''request_id'', requestID)]
                  else Inr Logger
              | _ \<Rightarrow> Inr Logger)))"

section \<open>JSON helpers: merging objects\<close>

text \<open>
  The grammar of JSON is that of \<open>encoding/json\<close>: an input of \<open>MergeJSON\<close> is given by what
  the decoder makes of its bytes, \<open>None\<close> for bytes that \<open>json.Valid\<close> rejects and the value
  written otherwise. Unmarshalling into a \<open>map[string]interface{}\<close> variable stores the
  members of an object one after the other, leaves the variable nil without an error for the
  literal \<open>null\<close>, and fails for every other value. Member values are kept as written: the
  decoder turns a number into a \<open>float64\<close>, rejecting one that is out of range and rounding
  one that is not representable, and the model, whose numbers are reals, does neither, so it
  stands for the program on inputs whose numbers \<open>float64\<close> represents exactly. The output is
  the object whose members are the entries of the result map (\<open>json.Marshal\<close> writes them
  sorted by key).
\<close>

datatype json =
    JNull
  | JBool bool
  | JNumber real
  | JString string
  | JArray "json list"
  | JObject "(string \<times> json) list"

type_synonym go_map = "(string \<times> json) list"

datatype merge_error = InvalidJSONData | UnmarshalObjectError string

fun assign_all :: "go_map \<Rightarrow> go_map \<Rightarrow> go_map" where
  "assign_all [] result = result"
| "assign_all ((k, v) # kvs) result = assign_all kvs (AList.update k v result)"

definition ValidateJSON :: "json option \<Rightarrow> bool" where
  "ValidateJSON jsonData \<longleftrightarrow> jsonData \<noteq> None"

definition Unmarshal_map :: "json \<Rightarrow> string + go_map option" where
  "Unmarshal_map v =
     (case v of
        JNull \<Rightarrow> Inr None
      | JObject members \<Rightarrow> Inr (Some (assign_all members []))
      | _ \<Rightarrow> Inl ''json: cannot unmarshal into Go value of type map[string]interface {}'')"

fun merge_loop :: "json option list \<Rightarrow> go_map \<Rightarrow> merge_error + go_map" where
  "merge_loop [] result = Inr result"
| "merge_loop (jsonData # rest) result =
     (if \<not> ValidateJSON jsonData then Inl InvalidJSONData
      else case Unmarshal_map (the jsonData) of
             Inl err \<Rightarrow> Inl (UnmarshalObjectError err)
           | Inr obj \<Rightarrow>
               merge_loop rest (assign_all (case obj of None \<Rightarrow> [] | Some m \<Rightarrow> m) result))"

definition MergeJSON :: "json option list \<Rightarrow> merge_error + json" where
  "MergeJSON jsonObjects =
     (if length jsonObjects = 0 then Inr (JObject [])
      else case merge_loop jsonObjects [] of
             Inl err \<Rightarrow> Inl err
           | Inr result \<Rightarrow> Inr (JObject result))"


section \<open>Notions used in the statements\<close>

text \<open>
  A dispatch fails, and the loop goes on, unless it returns a response whose status does not
  warrant a retry; \<open>failure_cause\<close> is the value the loop keeps in \<open>lastErr\<close> then.
\<close>

definition attempt_failed :: "world \<Rightarrow> nat \<Rightarrow> bool" where
  "attempt_failed w k =
     (case executeRequest w k of Inl err \<Rightarrow> True | Inr resp \<Rightarrow> shouldRetry (resp_StatusCode resp))"

definition failure_cause :: "world \<Rightarrow> nat \<Rightarrow> cause" where
  "failure_cause w k =
     (case executeRequest w k of Inl err \<Rightarrow> AttemptError err
      | Inr resp \<Rightarrow> HTTPStatus (resp_StatusCode resp))"

text \<open>The events of one round of the loop that reaches its dispatch, and of \<open>n\<close> such rounds.\<close>

definition round_events :: "RESTClient \<Rightarrow> int \<Rightarrow> event list" where
  "round_events rc attempt =
     (if attempt > 0 then [Wait (calculateBackoff rc attempt)] else []) @ [Dispatch (nat attempt)]"

fun rounds_events :: "RESTClient \<Rightarrow> int \<Rightarrow> nat \<Rightarrow> event list" where
  "rounds_events rc a 0 = []"
| "rounds_events rc a (Suc n) = round_events rc a @ rounds_events rc (a + 1) n"

text \<open>The timer of the round fires before the context is done (the first round does not wait).\<close>

definition timer_fires :: "RESTClient \<Rightarrow> world \<Rightarrow> http_Request \<Rightarrow> int \<Rightarrow> bool" where
  "timer_fires rc w req attempt \<longleftrightarrow>
     (attempt > 0 \<longrightarrow>
        select_Done w (req_ctx req) (nat attempt) (calculateBackoff rc attempt) = None)"

text \<open>
  The header of a request after the default headers and the headers of the call have been set,
  in this order, and before the content type is looked at.
\<close>

definition merged_headers :: "store \<Rightarrow> RESTClient \<Rightarrow> 'a RequestConfig \<Rightarrow> Header" where
  "merged_headers st rc config =
     Header_Set_all (cfg_Headers config) (Header_Set_all (map_entries st (rc_defaultHeaders rc)) [])"

text \<open>
  The value that a list of headers gives to a key: that of the last entry whose canonical key
  is the canonical form of the key. \<open>given_content_type\<close> is the value that the default
  headers followed by the headers of the call give to \<open>Content-Type\<close>, empty when none does.
\<close>

fun last_value :: "string \<Rightarrow> strmap \<Rightarrow> string option" where
  "last_value key [] = None"
| "last_value key ((k, v) # kvs) =
     (case last_value key kvs of
        Some v' \<Rightarrow> Some v'
      | None \<Rightarrow> if CanonicalMIMEHeaderKey k = CanonicalMIMEHeaderKey key then Some v else None)"

definition given_content_type :: "store \<Rightarrow> RESTClient \<Rightarrow> 'a RequestConfig \<Rightarrow> string" where
  "given_content_type st rc config =
     (case last_value ''Content-Type'' (map_entries st (rc_defaultHeaders rc) @ cfg_Headers config) of
        None \<Rightarrow> []
      | Some v \<Rightarrow> v)"

text \<open>The members of an input that is an object, in the order written.\<close>

fun object_members :: "json option \<Rightarrow> go_map" where
  "object_members (Some (JObject ms)) = ms"
| "object_members _ = []"

definition is_object :: "json option \<Rightarrow> bool" where
  "is_object x = (case x of Some (JObject ms) \<Rightarrow> True | _ \<Rightarrow> False)"

subsection \<open>Example clients, worlds and calls\<close>

definition client_with :: "RetryConfig \<Rightarrow> RESTClient" where
  "client_with p = Build (WithRetry p (fst (NewClientBuilder [])))"

text \<open>The store after \<open>NewClientBuilder\<close> has allocated the header map of the only builder.\<close>

definition client_store :: store where
  "client_store = snd (NewClientBuilder [])"

definition default_client :: RESTClient where
  "default_client = Build (WithDefaultRetry (fst (NewClientBuilder [])))"

definition plain_client :: RESTClient where
  "plain_client = Build (fst (NewClientBuilder []))"

definition always_500 :: world where
  "always_500 =
     \<lparr> executeRequest = (\<lambda>k. Inr \<lparr> resp_Body = [], resp_StatusCode = 500, resp_Headers = [] \<rparr>),
       backoff_select = (\<lambda>c k d. None) \<rparr>"

definition ok_response :: Response where
  "ok_response = \<lparr> resp_Body = ''{}'', resp_StatusCode = 200, resp_Headers = [] \<rparr>"

definition recovering :: world where
  "recovering =
     \<lparr> executeRequest = (\<lambda>k. if k = 0 then Inl ''connection reset'' else Inr ok_response),
       backoff_select = (\<lambda>c k d. None) \<rparr>"

text \<open>A world in which the context \<open>c\<close> is cancelled during the wait before round \<open>n\<close>.\<close>

definition cancelled_at :: "nat \<Rightarrow> nat \<Rightarrow> world" where
  "cancelled_at c n =
     \<lparr> executeRequest = (\<lambda>k. Inl ''connection refused''),
       backoff_select = (\<lambda>c' k d. if c' = c \<and> k = n then Some ''context canceled'' else None) \<rparr>"

definition simple_lib :: "unit stdlib" where
  "simple_lib = \<lparr> json_Marshal = (\<lambda>v. Inr ''null''), http_NewRequest = (\<lambda>m u. None),
                   url_Query = (\<lambda>u. []) \<rparr>"

definition get_config :: "string \<Rightarrow> unit RequestConfig" where
  "get_config url = \<lparr> cfg_Method = ''GET'', cfg_URL = url, cfg_Body = NilBody, cfg_Headers = [],
       cfg_QueryParams = [], cfg_Timeout = 0, cfg_Context = None \<rparr>"

text \<open>The same call with a context of the caller, and the requests built for the two calls.\<close>

definition ctx_config :: "string \<Rightarrow> nat \<Rightarrow> unit RequestConfig" where
  "ctx_config url c = (get_config url)\<lparr> cfg_Context := Some (CallerContext c) \<rparr>"

definition get_request :: http_Request where
  "get_request = \<lparr> req_ctx = Background, req_Method = ''GET'', req_URL = ''/x'', req_Body = None,
       req_Header = [], req_Query = None \<rparr>"

definition ctx_request :: "nat \<Rightarrow> http_Request" where
  "ctx_request c = get_request\<lparr> req_ctx := CallerContext c \<rparr>"


definition app_logger :: zap_Logger where
  "app_logger = ZapLogger 0 []"

definition request_logger :: zap_Logger where
  "request_logger = ZapLogger 1 [(''component'', ''orders'')]"

definition request_ctx :: log_context where
  "request_ctx = [(StringKey ''RequestID'', StringValue ''req-123'')]"

definition json_config :: "strmap \<Rightarrow> unit RequestConfig" where
  "json_config headers = \<lparr> cfg_Method = ''POST'', cfg_URL = ''/users'', cfg_Body = ValueBody (),
       cfg_Headers = headers, cfg_QueryParams = [], cfg_Timeout = 0, cfg_Context = None \<rparr>"

definition text_config :: "unit RequestConfig" where
  "text_config = \<lparr> cfg_Method = ''POST'', cfg_URL = ''/users'', cfg_Body = StringBody ''hello'',
       cfg_Headers = [], cfg_QueryParams = [], cfg_Timeout = 0, cfg_Context = None \<rparr>"

definition base_store :: store where
  "base_store = [(''Authorization'', ''Bearer base-token'')] # Nil"

definition base_client :: RESTClient where
  "base_client = Build (WithDefaultRetry (WithTimeout (20 * second) (fst (NewClientBuilder []))))"

definition plex_calls :: "builder_call list" where
  "plex_calls = [CallWithTimeout (30 * second), CallWithDefaultHeader ''X-Service'' ''plex'']"

section \<open>The retry loop\<close>

declare executeWithRetry_from.simps [simp del]

lemmas example_defs = client_store_def default_client_def plain_client_def always_500_def
  cancelled_at_def select_Done_def get_request_def ctx_request_def ctx_config_def
  simple_lib_def get_config_def Build_def WithDefaultRetry_def WithRetry_def NewClientBuilder_def
  defaultRetry_def millisecond_def second_def

lemma loop_exit:
  "\<not> attempt < getMaxAttempts rc \<Longrightarrow>
   executeWithRetry_from rc w req attempt lastErr = (Inl (MaxRetriesExceeded lastErr), [])"
  by (simp add: executeWithRetry_from.simps)

lemma loop_failed_round:
  assumes "attempt < getMaxAttempts rc" "timer_fires rc w req attempt" "attempt_failed w (nat attempt)"
  shows "executeWithRetry_from rc w req attempt lastErr =
         apsnd ((@) (round_events rc attempt))
           (executeWithRetry_from rc w req (attempt + 1) (Some (failure_cause w (nat attempt))))"
  using assms
  by (subst executeWithRetry_from.simps)
     (auto simp: timer_fires_def attempt_failed_def failure_cause_def round_events_def
           split: sum.splits)

lemma loop_cancelled_round:
  assumes "attempt < getMaxAttempts rc" "0 < attempt"
    "select_Done w (req_ctx req) (nat attempt) (calculateBackoff rc attempt) = Some e"
  shows "executeWithRetry_from rc w req attempt lastErr =
         (Inl (ContextError e), [Wait (calculateBackoff rc attempt)])"
  using assms by (subst executeWithRetry_from.simps) simp

lemma loop_success_round:
  assumes "attempt < getMaxAttempts rc" "timer_fires rc w req attempt"
    "executeRequest w (nat attempt) = Inr resp" "\<not> shouldRetry (resp_StatusCode resp)"
  shows "executeWithRetry_from rc w req attempt lastErr = (Inr resp, round_events rc attempt)"
  using assms
  by (subst executeWithRetry_from.simps) (auto simp: timer_fires_def round_events_def)

lemma attempts_append: "attempts (xs @ ys) = attempts xs + attempts ys"
  by (simp add: attempts_def)

lemma attempts_Wait: "attempts [Wait d] = 0"
  by (simp add: attempts_def)

lemma attempts_round: "attempts (round_events rc a) = 1"
  by (simp add: attempts_def round_events_def)

lemma round_cases:
  obtains (exit) "\<not> attempt < getMaxAttempts rc"
  | (cancelled) e where "attempt < getMaxAttempts rc" "0 < attempt"
      "select_Done w (req_ctx req) (nat attempt) (calculateBackoff rc attempt) = Some e"
  | (failed) "attempt < getMaxAttempts rc" "timer_fires rc w req attempt"
      "attempt_failed w (nat attempt)"
  | (success) resp where "attempt < getMaxAttempts rc" "timer_fires rc w req attempt"
      "executeRequest w (nat attempt) = Inr resp" "\<not> shouldRetry (resp_StatusCode resp)"
proof (cases "attempt < getMaxAttempts rc")
  case False
  then show ?thesis by (rule exit)
next
  case lt: True
  show ?thesis
  proof (cases "timer_fires rc w req attempt")
    case False
    then obtain e where "0 < attempt"
      "select_Done w (req_ctx req) (nat attempt) (calculateBackoff rc attempt) = Some e"
      by (auto simp: timer_fires_def)
    with lt show ?thesis by (rule cancelled)
  next
    case fires: True
    show ?thesis
    proof (cases "attempt_failed w (nat attempt)")
      case True
      with lt fires show ?thesis by (rule failed)
    next
      case False
      then obtain resp where "executeRequest w (nat attempt) = Inr resp"
        "\<not> shouldRetry (resp_StatusCode resp)"
        by (auto simp: attempt_failed_def split: sum.splits)
      with lt fires show ?thesis by (rule success)
    qed
  qed
qed

lemma attempts_bound:
  "attempts (snd (executeWithRetry_from rc w req attempt lastErr)) \<le> nat (getMaxAttempts rc - attempt)"
proof (induction "nat (getMaxAttempts rc - attempt)" arbitrary: attempt lastErr)
  case 0
  then have "\<not> attempt < getMaxAttempts rc" by simp
  then show ?case by (simp add: loop_exit attempts_def)
next
  case (Suc n)
  then have lt: "attempt < getMaxAttempts rc" by linarith
  show ?case
  proof (cases rule: round_cases [where attempt = attempt and rc = rc and w = w and req = req])
    case exit
    with lt show ?thesis by simp
  next
    case (cancelled e)
    then show ?thesis by (simp add: loop_cancelled_round attempts_def)
  next
    case failed
    have "n = nat (getMaxAttempts rc - (attempt + 1))" using Suc.hyps(2) by linarith
    from Suc.hyps(1) [OF this]
    have "attempts (snd (executeWithRetry_from rc w req (attempt + 1)
             (Some (failure_cause w (nat attempt))))) \<le> nat (getMaxAttempts rc - (attempt + 1))" .
    with failed lt show ?thesis
      by (simp add: loop_failed_round attempts_append attempts_round)
  next
    case (success resp)
    with lt show ?thesis by (simp add: loop_success_round attempts_round)
  qed
qed

lemma attempts_rounds: "attempts (rounds_events rc a n) = n"
  by (induction n arbitrary: a) (simp_all add: attempts_append attempts_round, simp add: attempts_def)

lemma apsnd_apsnd_append: "apsnd ((@) xs) (apsnd ((@) ys) r) = apsnd ((@) (xs @ ys)) r"
  by (cases r) simp

lemma loop_failed_rounds:
  assumes "0 \<le> a" "a + int n \<le> getMaxAttempts rc" "0 < n"
    "\<forall>j. a \<le> j \<and> j < a + int n \<longrightarrow> timer_fires rc w req j \<and> attempt_failed w (nat j)"
  shows "executeWithRetry_from rc w req a lastErr =
         apsnd ((@) (rounds_events rc a n))
           (executeWithRetry_from rc w req (a + int n) (Some (failure_cause w (nat (a + int n - 1)))))"
  using assms
proof (induction n arbitrary: a lastErr)
  case 0
  then show ?case by simp
next
  case (Suc n)
  have lt: "a < getMaxAttempts rc" using Suc.prems by linarith
  have here: "timer_fires rc w req a" "attempt_failed w (nat a)" using Suc.prems by auto
  note step = loop_failed_round [OF lt here, of lastErr]
  show ?case
  proof (cases n)
    case 0
    then show ?thesis using step by simp
  next
    case (Suc m)
    have "executeWithRetry_from rc w req (a + 1) (Some (failure_cause w (nat a))) =
          apsnd ((@) (rounds_events rc (a + 1) n))
            (executeWithRetry_from rc w req (a + 1 + int n)
               (Some (failure_cause w (nat (a + 1 + int n - 1)))))"
      using Suc.prems Suc by (intro Suc.IH) auto
    then show ?thesis using step
      by (simp add: apsnd_apsnd_append add.commute add.left_commute)
  qed
qed


lemma round_starts:
  assumes "attempt < getMaxAttempts rc" "timer_fires rc w req attempt"
  shows "\<exists>rest. snd (executeWithRetry_from rc w req attempt lastErr) = round_events rc attempt @ rest"
proof (cases "attempt_failed w (nat attempt)")
  case True
  show ?thesis
    by (subst loop_failed_round [OF assms True]) simp
next
  case False
  then obtain resp where "executeRequest w (nat attempt) = Inr resp"
    "\<not> shouldRetry (resp_StatusCode resp)"
    by (auto simp: attempt_failed_def split: sum.splits)
  then show ?thesis using assms by (simp add: loop_success_round)
qed

lemma calculateBackoff_first_retry:
  "rc_retry rc = Some p \<Longrightarrow> calculateBackoff rc 1 = min 0 (MaxBackoff p)"
  by (simp add: calculateBackoff_def Duration_of_float_def min_def)

text \<open>
  Claim C10, as the code has it. For a client with a retry policy, the delay that
  \<open>calculateBackoff\<close> computes for the loop's round 1, the round of the second dispatch, is
  \<open>min(0, MaxBackoff)\<close>, whatever the initial backoff and the factor are: the product has the
  factor \<open>attempt - 1 = 0\<close>, and the clamp replaces the zero by a negative \<open>MaxBackoff\<close>.
  So the delay is exactly zero for every policy whose \<open>MaxBackoff\<close> is not negative, and a
  call whose first dispatch fails waits for this delay before its second dispatch.
\<close>

theorem C10_first_retry_delay:
  assumes "rc_retry rc = Some p"
  shows "calculateBackoff rc 1 = min 0 (MaxBackoff p) \<and>
         (0 \<le> MaxBackoff p \<longrightarrow> calculateBackoff rc 1 = 0) \<and>
         (1 < MaxAttempts p \<and> attempt_failed w 0 \<and> timer_fires rc w req 1 \<longrightarrow>
            (\<exists>rest. snd (executeWithRetry rc w req) =
               Dispatch 0 # Wait (min 0 (MaxBackoff p)) # Dispatch 1 # rest))"
proof (intro conjI impI)
  show d: "calculateBackoff rc 1 = min 0 (MaxBackoff p)"
    using assms by (rule calculateBackoff_first_retry)
  show "calculateBackoff rc 1 = 0" if "0 \<le> MaxBackoff p"
    using d that by simp
  show "\<exists>rest. snd (executeWithRetry rc w req) =
          Dispatch 0 # Wait (min 0 (MaxBackoff p)) # Dispatch 1 # rest"
    if h: "1 < MaxAttempts p \<and> attempt_failed w 0 \<and> timer_fires rc w req 1"
  proof -
    have m: "getMaxAttempts rc = MaxAttempts p"
      using assms by (simp add: getMaxAttempts_def)
    have first: "executeWithRetry_from rc w req 0 None =
        apsnd ((@) (round_events rc 0))
          (executeWithRetry_from rc w req (0 + 1) (Some (failure_cause w (nat 0))))"
      using h m by (intro loop_failed_round) (simp_all add: timer_fires_def)
    obtain rest where "snd (executeWithRetry_from rc w req 1 (Some (failure_cause w 0))) =
        round_events rc 1 @ rest"
      using round_starts [where attempt = 1 and rc = rc and w = w and req = req] h m by auto
    then show ?thesis
      using first d by (simp add: executeWithRetry_def round_events_def)
  qed
qed


text \<open>
  Claim C1 asks for the delay \<open>min(maxBackoff, initialBackoff * backoffFactor^(n-1))\<close> before
  attempt number \<open>n \<ge> 2\<close>, and the package documentation promises exponential backoff. The
  code multiplies the factor by \<open>attempt - 1\<close> instead of raising it to a power. With the
  default policy (100 ms, factor 2, at most 5 s, three attempts) and a server that always
  answers 500, the client waits 0 and then 200 ms, where the formula gives 200 ms and 400 ms.
\<close>

theorem C1_backoff_not_exponential:
  "snd (executeWithRetry default_client always_500 get_request) =
     [Dispatch 0, Wait 0, Dispatch 1, Wait (200 * millisecond), Dispatch 2] \<and>
   spec_backoff defaultRetry 2 = 200 * millisecond \<and>
   spec_backoff defaultRetry 3 = 400 * millisecond"
  by (simp add: executeWithRetry_def executeWithRetry_from.simps example_defs getMaxAttempts_def
        calculateBackoff_def shouldRetry_def Duration_of_float_def spec_backoff_def)

text \<open>
  Claim C10 as it is written, for every configured policy, fails for a policy with a negative
  \<open>MaxBackoff\<close>: with \<open>MaxBackoff\<close> of minus one nanosecond the computed delay before the second
  attempt is minus one nanosecond, not zero.
\<close>

theorem C10_negative_maximum:
  "calculateBackoff (client_with \<lparr> MaxAttempts = 3, InitialBackoff = 100 * millisecond,
       MaxBackoff = - 1, BackoffFactor = 2 \<rparr>) 1 = - 1 \<and>
   calculateBackoff (client_with \<lparr> MaxAttempts = 3, InitialBackoff = 100 * millisecond,
       MaxBackoff = - 1, BackoffFactor = 2 \<rparr>) 1 \<noteq> 0"
  by (simp add: client_with_def calculateBackoff_def Duration_of_float_def example_defs)

text \<open>Claim C10 at the default policy and a server that always answers 500.\<close>

theorem C10_first_retry_delay_witness:
  "calculateBackoff default_client 1 = 0 \<and>
   (\<exists>rest. snd (executeWithRetry default_client always_500 get_request) =
      Dispatch 0 # Wait 0 # Dispatch 1 # rest)"
  using C10_first_retry_delay [where rc = default_client and p = defaultRetry
      and w = always_500 and req = get_request]
  by (simp add: example_defs attempt_failed_def timer_fires_def shouldRetry_def)

lemma getMaxAttempts_Some: "rc_retry rc = Some p \<Longrightarrow> getMaxAttempts rc = MaxAttempts p"
  by (simp add: getMaxAttempts_def)

lemma exhausted:
  assumes "1 \<le> getMaxAttempts rc"
    "\<forall>j. 0 \<le> j \<and> j < getMaxAttempts rc \<longrightarrow> timer_fires rc w req j \<and> attempt_failed w (nat j)"
  shows "executeWithRetry rc w req =
         (Inl (MaxRetriesExceeded (Some (failure_cause w (nat (getMaxAttempts rc - 1))))),
          rounds_events rc 0 (nat (getMaxAttempts rc)))"
proof -
  let ?n = "nat (getMaxAttempts rc)"
  have n: "0 + int ?n = getMaxAttempts rc" "0 < ?n" using assms(1) by auto
  have "executeWithRetry_from rc w req 0 None =
        apsnd ((@) (rounds_events rc 0 ?n))
          (executeWithRetry_from rc w req (0 + int ?n) (Some (failure_cause w (nat (0 + int ?n - 1)))))"
    using assms n by (intro loop_failed_rounds) auto
  then show ?thesis
    using n by (simp add: executeWithRetry_def loop_exit)
qed

lemma rounds_then_round:
  assumes "int n < getMaxAttempts rc"
    and "\<forall>j. 0 \<le> j \<and> j < int n \<longrightarrow> timer_fires rc w req j \<and> attempt_failed w (nat j)"
  shows "\<exists>l. executeWithRetry rc w req =
           apsnd ((@) (rounds_events rc 0 n)) (executeWithRetry_from rc w req (int n) l)"
proof (cases n)
  case 0
  have "executeWithRetry rc w req = apsnd ((@) []) (executeWithRetry_from rc w req 0 None)"
    by (cases "executeWithRetry_from rc w req 0 None") (simp add: executeWithRetry_def)
  then show ?thesis using 0 by auto
next
  case (Suc m)
  have "executeWithRetry_from rc w req 0 None =
        apsnd ((@) (rounds_events rc 0 n))
          (executeWithRetry_from rc w req (0 + int n) (Some (failure_cause w (nat (0 + int n - 1)))))"
    using assms Suc by (intro loop_failed_rounds) auto
  then show ?thesis by (auto simp: executeWithRetry_def)
qed

lemma next_dispatch:
  assumes "int n < getMaxAttempts rc"
    and "\<forall>j. 0 \<le> j \<and> j < int n \<longrightarrow> timer_fires rc w req j \<and> attempt_failed w (nat j)"
    and "timer_fires rc w req (int n)"
  shows "n < attempts (snd (executeWithRetry rc w req))"
proof -
  obtain l where l: "executeWithRetry rc w req =
      apsnd ((@) (rounds_events rc 0 n)) (executeWithRetry_from rc w req (int n) l)"
    using rounds_then_round [OF assms(1,2)] by blast
  obtain rest where "snd (executeWithRetry_from rc w req (int n) l) = round_events rc (int n) @ rest"
    using round_starts [OF assms(1,3)] by blast
  then show ?thesis
    by (simp add: l attempts_append attempts_rounds attempts_round)
qed

lemma first_success:
  assumes "int n < getMaxAttempts rc"
    and "\<forall>j. 0 \<le> j \<and> j < int n \<longrightarrow> timer_fires rc w req j \<and> attempt_failed w (nat j)"
    and "timer_fires rc w req (int n)"
    and "executeRequest w n = Inr resp" and "\<not> shouldRetry (resp_StatusCode resp)"
  shows "executeWithRetry rc w req = (Inr resp, rounds_events rc 0 n @ round_events rc (int n))"
proof -
  obtain l where l: "executeWithRetry rc w req =
      apsnd ((@) (rounds_events rc 0 n)) (executeWithRetry_from rc w req (int n) l)"
    using rounds_then_round [OF assms(1,2)] by blast
  have "executeWithRetry_from rc w req (int n) l = (Inr resp, round_events rc (int n))"
    using assms by (intro loop_success_round) simp_all
  then show ?thesis by (simp add: l)
qed

text \<open>
  Claim C2. For every call whose request is constructed: without a retry policy the client
  dispatches the request exactly once; with a retry policy it dispatches at most
  \<open>MaxAttempts\<close> times; a dispatch that ends in an error, or in a response with a status
  from 500 to 599, 429 or 408, is a failure after which the loop goes on: after \<open>n\<close> failed
  dispatches, with \<open>n\<close> below \<open>MaxAttempts\<close> and no wait cut short, the next dispatch is made, and
  the call returns its response if the status of that response warrants no retry; and when
  the policy allows at least one attempt (the invariant of a retry policy) and every one of its
  \<open>MaxAttempts\<close> dispatches fails in this way, no wait being cut short by the context, the call
  returns no response but the error \<open>max retries exceeded\<close> wrapping the error or the status of
  the last dispatch. A dispatch is a call of \<open>executeRequest\<close>, which hands the request to the
  transport, through the circuit breaker when one is configured.
\<close>

theorem C2_retry_loop:
  assumes "createRequest lib st rc config = Inr req"
  shows "(rc_retry rc = None \<longrightarrow> attempts (snd (Request lib st rc w config)) = 1) \<and>
         (\<forall>p. rc_retry rc = Some p \<longrightarrow>
              attempts (snd (Request lib st rc w config)) \<le> nat (MaxAttempts p)) \<and>
         (\<forall>k resp. executeRequest w k = Inr resp \<and>
              (500 \<le> resp_StatusCode resp \<and> resp_StatusCode resp \<le> 599 \<or>
               resp_StatusCode resp = 429 \<or> resp_StatusCode resp = 408) \<longrightarrow> attempt_failed w k) \<and>
         (\<forall>k err. executeRequest w k = Inl err \<longrightarrow> attempt_failed w k) \<and>
         (\<forall>p n. rc_retry rc = Some p \<and> int n < MaxAttempts p \<and>
              (\<forall>j. 0 \<le> j \<and> j < int n \<longrightarrow> timer_fires rc w req j \<and> attempt_failed w (nat j)) \<and>
              timer_fires rc w req (int n) \<longrightarrow>
              n < attempts (snd (Request lib st rc w config)) \<and>
              (\<forall>resp. executeRequest w n = Inr resp \<and> \<not> shouldRetry (resp_StatusCode resp) \<longrightarrow>
                 fst (Request lib st rc w config) = Inr resp \<and>
                 attempts (snd (Request lib st rc w config)) = Suc n)) \<and>
         (\<forall>p. rc_retry rc = Some p \<and> 1 \<le> MaxAttempts p \<and>
              (\<forall>j. 0 \<le> j \<and> j < MaxAttempts p \<longrightarrow> timer_fires rc w req j \<and> attempt_failed w (nat j)) \<longrightarrow>
              fst (Request lib st rc w config) =
                Inl (MaxRetriesExceeded (Some (failure_cause w (nat (MaxAttempts p - 1))))) \<and>
              attempts (snd (Request lib st rc w config)) = nat (MaxAttempts p))"
proof (intro conjI allI impI)
  show "attempts (snd (Request lib st rc w config)) = 1" if "rc_retry rc = None"
    using assms that by (simp add: Request_def attempts_def split: sum.splits)
next
  fix p assume p: "rc_retry rc = Some p"
  have "attempts (snd (executeWithRetry_from rc w req 0 None)) \<le> nat (getMaxAttempts rc - 0)"
    by (rule attempts_bound)
  then show "attempts (snd (Request lib st rc w config)) \<le> nat (MaxAttempts p)"
    using assms p by (simp add: Request_def executeWithRetry_def getMaxAttempts_Some)
next
  fix k resp
  assume "executeRequest w k = Inr resp \<and>
          (500 \<le> resp_StatusCode resp \<and> resp_StatusCode resp \<le> 599 \<or>
           resp_StatusCode resp = 429 \<or> resp_StatusCode resp = 408)"
  then show "attempt_failed w k" by (auto simp: attempt_failed_def shouldRetry_def)
next
  fix k err assume "executeRequest w k = Inl err"
  then show "attempt_failed w k" by (simp add: attempt_failed_def)
next
  fix p n
  assume h: "rc_retry rc = Some p \<and> int n < MaxAttempts p \<and>
     (\<forall>j. 0 \<le> j \<and> j < int n \<longrightarrow> timer_fires rc w req j \<and> attempt_failed w (nat j)) \<and>
     timer_fires rc w req (int n)"
  then have lt: "int n < getMaxAttempts rc" by (simp add: getMaxAttempts_Some)
  have r: "Request lib st rc w config = executeWithRetry rc w req"
    using assms h by (simp add: Request_def)
  have "n < attempts (snd (executeWithRetry rc w req))"
    using lt h by (intro next_dispatch) blast+
  then show "n < attempts (snd (Request lib st rc w config))"
    using r by simp
next
  fix p n resp
  assume h: "rc_retry rc = Some p \<and> int n < MaxAttempts p \<and>
     (\<forall>j. 0 \<le> j \<and> j < int n \<longrightarrow> timer_fires rc w req j \<and> attempt_failed w (nat j)) \<and>
     timer_fires rc w req (int n)"
    and ok: "executeRequest w n = Inr resp \<and> \<not> shouldRetry (resp_StatusCode resp)"
  then have lt: "int n < getMaxAttempts rc" by (simp add: getMaxAttempts_Some)
  have r: "Request lib st rc w config = executeWithRetry rc w req"
    using assms h by (simp add: Request_def)
  have e: "executeWithRetry rc w req = (Inr resp, rounds_events rc 0 n @ round_events rc (int n))"
    using lt h ok by (intro first_success) blast+
  show "fst (Request lib st rc w config) = Inr resp"
    using r e by simp
  show "attempts (snd (Request lib st rc w config)) = Suc n"
    using r e by (simp add: attempts_append attempts_rounds attempts_round)
next
  fix p
  assume h: "rc_retry rc = Some p \<and> 1 \<le> MaxAttempts p \<and>
     (\<forall>j. 0 \<le> j \<and> j < MaxAttempts p \<longrightarrow> timer_fires rc w req j \<and> attempt_failed w (nat j))"
  then have m: "getMaxAttempts rc = MaxAttempts p" by (simp add: getMaxAttempts_Some)
  have e: "executeWithRetry rc w req =
         (Inl (MaxRetriesExceeded (Some (failure_cause w (nat (getMaxAttempts rc - 1))))),
          rounds_events rc 0 (nat (getMaxAttempts rc)))"
    using h m by (intro exhausted) auto
  have r: "Request lib st rc w config = executeWithRetry rc w req"
    using assms h by (simp add: Request_def)
  show "fst (Request lib st rc w config) =
          Inl (MaxRetriesExceeded (Some (failure_cause w (nat (MaxAttempts p - 1)))))"
    using r e m by simp
  show "attempts (snd (Request lib st rc w config)) = nat (MaxAttempts p)"
    using r e m by (simp add: attempts_rounds)
qed


lemma create_plain:
  "createRequest simple_lib client_store plain_client (get_config ''/x'') = Inr get_request"
  by (simp add: createRequest_def example_defs buildURL_def map_entries_def)

lemma create_default:
  "createRequest simple_lib client_store default_client (get_config ''/x'') = Inr get_request"
  by (simp add: createRequest_def example_defs buildURL_def map_entries_def)

lemma create_with_context:
  "createRequest simple_lib client_store default_client (ctx_config ''/x'' c) =
     Inr (ctx_request c)"
  by (simp add: createRequest_def example_defs buildURL_def map_entries_def)

text \<open>
  Claim C2 at a client without a retry policy and at a client with the default policy, both
  against a server that always answers 500.
\<close>

theorem C2_retry_loop_witness:
  "attempts (snd (Request simple_lib client_store plain_client always_500 (get_config ''/x''))) = 1 \<and>
   fst (Request simple_lib client_store default_client always_500 (get_config ''/x'')) =
     Inl (MaxRetriesExceeded (Some (HTTPStatus 500))) \<and>
   attempts (snd (Request simple_lib client_store default_client always_500 (get_config ''/x''))) = 3 \<and>
   fst (Request simple_lib client_store default_client recovering (get_config ''/x'')) =
     Inr ok_response \<and>
   attempts (snd (Request simple_lib client_store default_client recovering (get_config ''/x''))) = 2"
proof -
  have failed: "\<forall>j. 0 \<le> j \<and> j < int 1 \<longrightarrow>
      timer_fires default_client recovering get_request j \<and> attempt_failed recovering (nat j)"
    by (auto simp: timer_fires_def attempt_failed_def recovering_def select_Done_def)
  have ok: "executeRequest recovering 1 = Inr ok_response \<and>
      \<not> shouldRetry (resp_StatusCode ok_response)"
    by (simp add: recovering_def ok_response_def shouldRetry_def)
  have fires: "timer_fires default_client recovering get_request (int 1)"
    by (simp add: timer_fires_def recovering_def select_Done_def get_request_def)
  have retry: "rc_retry default_client = Some defaultRetry \<and> int 1 < MaxAttempts defaultRetry"
    by (simp add: example_defs)
  have once: "attempts (snd (Request simple_lib client_store plain_client always_500
      (get_config ''/x''))) = 1"
    using C2_retry_loop [OF create_plain, of always_500] by (simp add: example_defs)
  have exhausted:
    "fst (Request simple_lib client_store default_client always_500 (get_config ''/x'')) =
       Inl (MaxRetriesExceeded (Some (HTTPStatus 500))) \<and>
     attempts (snd (Request simple_lib client_store default_client always_500
       (get_config ''/x''))) = 3"
    using C2_retry_loop [OF create_default, of always_500]
    by (simp add: example_defs attempt_failed_def failure_cause_def timer_fires_def
        shouldRetry_def)
  have recovered:
    "fst (Request simple_lib client_store default_client recovering (get_config ''/x'')) =
       Inr ok_response \<and>
     attempts (snd (Request simple_lib client_store default_client recovering
       (get_config ''/x''))) = Suc 1"
    using C2_retry_loop [OF create_default, of recovering] retry failed fires ok by blast
  show ?thesis
    using once exhausted recovered by simp
qed

lemma createRequest_context:
  assumes "createRequest lib st rc config = Inr req"
  shows "req_ctx req = (case cfg_Context config of None \<Rightarrow> Background | Some c \<Rightarrow> c)"
  using assms
  by (auto simp: createRequest_def Let_def split: sum.splits option.splits body.splits)

text \<open>A call without a context of the caller is never cut short by a cancellation.\<close>

lemma background_not_cancelled:
  assumes "req_ctx req = Background"
  shows "fst (executeWithRetry_from rc w req attempt lastErr) \<noteq> Inl (ContextError e)"
proof (induction "nat (getMaxAttempts rc - attempt)" arbitrary: attempt lastErr)
  case 0
  then have "\<not> attempt < getMaxAttempts rc" by simp
  then show ?case by (simp add: loop_exit)
next
  case (Suc n)
  have fires: "timer_fires rc w req attempt"
    using assms by (simp add: timer_fires_def select_Done_def)
  show ?case
  proof (cases rule: round_cases [where attempt = attempt and rc = rc and w = w and req = req])
    case exit
    then show ?thesis by (simp add: loop_exit)
  next
    case (cancelled e')
    with assms show ?thesis by (simp add: select_Done_def)
  next
    case failed
    have "n = nat (getMaxAttempts rc - (attempt + 1))" using Suc.hyps(2) by linarith
    from Suc.hyps(1) [OF this] failed show ?thesis
      by (simp add: loop_failed_round)
  next
    case (success resp)
    then show ?thesis by (simp add: loop_success_round)
  qed
qed

text \<open>
  Claim C5. The call's context is the one \<open>createRequest\<close> binds to the request, and the loop
  selects on the context of that request. For every retry policy, every context \<open>c\<close> that the
  caller passes with the call and every round \<open>k\<close> of the loop that waits (\<open>0 < k <
  MaxAttempts\<close>): when the earlier dispatches failed and \<open>c\<close> is done while the loop waits out
  the delay before round \<open>k\<close>, the call returns the error of \<open>c\<close>, which is not the error \<open>max
  retries exceeded\<close>, and it returns at once: the wait is the last thing the call does, and
  no dispatch follows the \<open>k\<close> dispatches made before.
\<close>

theorem C5_cancel_during_backoff:
  assumes "createRequest lib st rc config = Inr req"
    and "cfg_Context config = Some (CallerContext c)"
    and "rc_retry rc = Some p" and "0 < k" and "int k < MaxAttempts p"
    and "\<forall>j. 0 \<le> j \<and> j < int k \<longrightarrow> timer_fires rc w req j \<and> attempt_failed w (nat j)"
    and "backoff_select w c k (calculateBackoff rc (int k)) = Some e"
  shows "fst (Request lib st rc w config) = Inl (ContextError e) \<and>
         (\<forall>x. fst (Request lib st rc w config) \<noteq> Inl (MaxRetriesExceeded x)) \<and>
         attempts (snd (Request lib st rc w config)) = k \<and>
         last (snd (Request lib st rc w config)) = Wait (calculateBackoff rc (int k))"
proof -
  have m: "getMaxAttempts rc = MaxAttempts p"
    using assms(3) by (rule getMaxAttempts_Some)
  have ctx: "req_ctx req = CallerContext c"
    using createRequest_context [OF assms(1)] assms(2) by simp
  have sel: "select_Done w (req_ctx req) (nat (int k)) (calculateBackoff rc (int k)) = Some e"
    using assms(7) ctx by (simp add: select_Done_def)
  have "executeWithRetry_from rc w req 0 None =
        apsnd ((@) (rounds_events rc 0 k))
          (executeWithRetry_from rc w req (0 + int k)
             (Some (failure_cause w (nat (0 + int k - 1)))))"
    using assms(4,5,6) m by (intro loop_failed_rounds) auto
  moreover have "executeWithRetry_from rc w req (int k) (Some (failure_cause w (nat (int k - 1)))) =
        (Inl (ContextError e), [Wait (calculateBackoff rc (int k))])"
    using assms(4,5) m sel by (intro loop_cancelled_round) auto
  ultimately have "executeWithRetry rc w req =
        (Inl (ContextError e), rounds_events rc 0 k @ [Wait (calculateBackoff rc (int k))])"
    by (simp add: executeWithRetry_def)
  moreover have "Request lib st rc w config = executeWithRetry rc w req"
    using assms(1,3) by (simp add: Request_def)
  ultimately show ?thesis
    by (simp add: attempts_append attempts_rounds attempts_Wait)
qed

text \<open>
  Claim C5 at the default policy, with a transport that refuses every connection and a call
  whose context, passed by the caller, is cancelled during the wait before the third attempt.
\<close>

theorem C5_cancel_during_backoff_witness:
  "fst (Request simple_lib client_store default_client (cancelled_at 7 2) (ctx_config ''/x'' 7)) =
     Inl (ContextError ''context canceled'') \<and>
   attempts (snd (Request simple_lib client_store default_client (cancelled_at 7 2)
     (ctx_config ''/x'' 7))) = 2 \<and>
   last (snd (Request simple_lib client_store default_client (cancelled_at 7 2)
     (ctx_config ''/x'' 7))) = Wait (200 * millisecond)"
proof -
  have ctx: "cfg_Context (ctx_config ''/x'' 7) = Some (CallerContext 7)"
    by (simp add: ctx_config_def)
  have retry: "rc_retry default_client = Some defaultRetry"
    by (simp add: example_defs)
  have rounds: "\<forall>j. 0 \<le> j \<and> j < int 2 \<longrightarrow>
      timer_fires default_client (cancelled_at 7 2) (ctx_request 7) j \<and>
      attempt_failed (cancelled_at 7 2) (nat j)"
    by (auto simp: timer_fires_def attempt_failed_def cancelled_at_def select_Done_def
        ctx_request_def)
  have sel: "backoff_select (cancelled_at 7 2) 7 2 (calculateBackoff default_client (int 2)) =
      Some ''context canceled''"
    by (simp add: cancelled_at_def)
  have delay: "calculateBackoff default_client (int 2) = 200 * millisecond"
    by (simp add: example_defs calculateBackoff_def Duration_of_float_def)
  show ?thesis
    using C5_cancel_during_backoff [OF create_with_context ctx retry _ _ rounds sel] delay
    by (simp add: defaultRetry_def)
qed

text \<open>
  The outcome depends on the context bound to the request. A call that passes no context, hence
  runs with \<open>context.Background()\<close>, never returns the error of a context; and in the world of
  the example above, where the context 7 is cancelled, the same call without a context or with
  another context goes on to its third attempt and ends with \<open>max retries exceeded\<close>.
\<close>

lemma Request_without_context:
  assumes "cfg_Context config = None"
  shows "fst (Request lib st rc w config) \<noteq> Inl (ContextError e)"
proof (cases "createRequest lib st rc config")
  case (Inl err)
  then have "err \<noteq> ContextError e"
    by (auto simp: createRequest_def Let_def split: sum.splits option.splits body.splits)
  with Inl show ?thesis by (simp add: Request_def)
next
  case (Inr req)
  from createRequest_context [OF Inr] assms have bg: "req_ctx req = Background" by simp
  show ?thesis
  proof (cases "rc_retry rc")
    case None
    with Inr show ?thesis by (simp add: Request_def split: sum.splits)
  next
    case (Some p)
    with Inr background_not_cancelled [OF bg, of rc w 0 None e] show ?thesis
      by (simp add: Request_def executeWithRetry_def)
  qed
qed

lemma other_contexts_not_cancelled:
  "fst (Request simple_lib client_store default_client (cancelled_at 7 2) (get_config ''/x'')) =
     Inl (MaxRetriesExceeded (Some (AttemptError ''connection refused''))) \<and>
   fst (Request simple_lib client_store default_client (cancelled_at 7 2) (ctx_config ''/x'' 8)) =
     Inl (MaxRetriesExceeded (Some (AttemptError ''connection refused'')))"
proof -
  have retry: "rc_retry default_client \<noteq> None"
    by (simp add: example_defs)
  have r1: "Request simple_lib client_store default_client (cancelled_at 7 2) (get_config ''/x'') =
      executeWithRetry default_client (cancelled_at 7 2) get_request"
    unfolding Request_def create_default using retry by simp
  have r2: "Request simple_lib client_store default_client (cancelled_at 7 2)
      (ctx_config ''/x'' 8) = executeWithRetry default_client (cancelled_at 7 2) (ctx_request 8)"
    unfolding Request_def create_with_context using retry by simp
  have e1: "fst (executeWithRetry default_client (cancelled_at 7 2) get_request) =
      Inl (MaxRetriesExceeded (Some (AttemptError ''connection refused'')))"
    by (simp add: executeWithRetry_def executeWithRetry_from.simps example_defs
        getMaxAttempts_def calculateBackoff_def Duration_of_float_def)
  have e2: "fst (executeWithRetry default_client (cancelled_at 7 2) (ctx_request 8)) =
      Inl (MaxRetriesExceeded (Some (AttemptError ''connection refused'')))"
    by (simp add: executeWithRetry_def executeWithRetry_from.simps example_defs
        getMaxAttempts_def calculateBackoff_def Duration_of_float_def)
  show ?thesis
    by (simp add: r1 r2 e1 e2)
qed

section \<open>Request URLs\<close>








section \<open>The logger of a context\<close>

lemma FromContext_attached:
  "ctx_Value c loggerKey = Some (LoggerValue l) \<Longrightarrow> FromContext G (Some c) = Inr l"
  by (simp add: FromContext_def)

lemma FromContext_not_attached:
  assumes "\<forall>l'. ctx_Value c loggerKey \<noteq> Some (LoggerValue l')"
  shows "FromContext G (Some c) =
         (case ctx_Value c (StringKey ''RequestID'') of
            Some (StringValue requestID) \<Rightarrow>
              if requestID \<noteq> [] then Logger_With G [(''request_id'', requestID)] else Inr G
          | _ \<Rightarrow> Inr G)"
proof (cases "ctx_Value c loggerKey")
  case None
  then show ?thesis by (simp add: FromContext_def)
next
  case (Some v)
  with assms show ?thesis by (cases v) (simp_all add: FromContext_def)
qed

text \<open>
  Claim C9. For a context that carries a logger under the package's key, such as the context
  that \<open>WithContext\<close> returns, \<open>FromContext\<close> returns that logger. Otherwise, for a context
  that carries a non-empty string under \<open>RequestID\<close>, it returns the process-wide logger
  (initialised) with the field \<open>request_id\<close> added. Otherwise, and for a nil context, it
  returns the process-wide logger as it is.
\<close>

theorem C9_FromContext:
  "(ctx_Value c loggerKey = Some (LoggerValue l) \<longrightarrow> FromContext G (Some c) = Inr l) \<and>
   (WithContext (Some c) l = Inr c' \<longrightarrow> FromContext G (Some c') = Inr l) \<and>
   ((\<forall>l'. ctx_Value c loggerKey \<noteq> Some (LoggerValue l')) \<and>
    ctx_Value c (StringKey ''RequestID'') = Some (StringValue rid) \<and> rid \<noteq> [] \<and>
    G = Some (ZapLogger core fs) \<longrightarrow>
      FromContext G (Some c) = Inr (Some (ZapLogger core (fs @ [(''request_id'', rid)])))) \<and>
   ((\<forall>l'. ctx_Value c loggerKey \<noteq> Some (LoggerValue l')) \<and>
    (\<forall>r. ctx_Value c (StringKey ''RequestID'') = Some (StringValue r) \<longrightarrow> r = []) \<longrightarrow>
      FromContext G (Some c) = Inr G) \<and>
   FromContext G None = Inr G"
proof (intro conjI impI)
  show "FromContext G (Some c) = Inr l" if "ctx_Value c loggerKey = Some (LoggerValue l)"
    using that by (rule FromContext_attached)
  show "FromContext G (Some c') = Inr l" if "WithContext (Some c) l = Inr c'"
  proof -
    from that have "c' = (loggerKey, LoggerValue l) # c" by (simp add: WithContext_def)
    then have "ctx_Value c' loggerKey = Some (LoggerValue l)" by (simp add: ctx_Value_def)
    then show ?thesis by (rule FromContext_attached)
  qed
  show "FromContext G (Some c) = Inr (Some (ZapLogger core (fs @ [(''request_id'', rid)])))"
    if h: "(\<forall>l'. ctx_Value c loggerKey \<noteq> Some (LoggerValue l')) \<and>
       ctx_Value c (StringKey ''RequestID'') = Some (StringValue rid) \<and> rid \<noteq> [] \<and>
       G = Some (ZapLogger core fs)"
  proof -
    from h have "\<forall>l'. ctx_Value c loggerKey \<noteq> Some (LoggerValue l')" by blast
    from FromContext_not_attached [OF this, of G] h show ?thesis
      by (simp add: Logger_With_def)
  qed
  show "FromContext G (Some c) = Inr G"
    if h: "(\<forall>l'. ctx_Value c loggerKey \<noteq> Some (LoggerValue l')) \<and>
       (\<forall>r. ctx_Value c (StringKey ''RequestID'') = Some (StringValue r) \<longrightarrow> r = [])"
  proof -
    from h have n: "\<forall>l'. ctx_Value c loggerKey \<noteq> Some (LoggerValue l')" by blast
    show ?thesis
    proof (cases "ctx_Value c (StringKey ''RequestID'')")
      case None
      then show ?thesis by (simp add: FromContext_not_attached [OF n])
    next
      case (Some v)
      with h show ?thesis
        by (cases v) (simp_all add: FromContext_not_attached [OF n])
    qed
  qed
  show "FromContext G None = Inr G" by (simp add: FromContext_def)
qed

text \<open>
  Claim C9 at a context with an attached logger, one with a request identifier only, one with
  an empty identifier, and one with neither.
\<close>

theorem C9_FromContext_witness:
  "FromContext (Some app_logger) (Some ((loggerKey, LoggerValue (Some request_logger)) # request_ctx)) =
     Inr (Some request_logger) \<and>
   FromContext (Some app_logger) (Some request_ctx) =
     Inr (Some (ZapLogger 0 [(''request_id'', ''req-123'')])) \<and>
   FromContext (Some app_logger) (Some [(StringKey ''RequestID'', StringValue [])]) =
     Inr (Some app_logger) \<and>
   FromContext (Some app_logger) (Some [(OtherKey 7, StringValue ''req-123'')]) =
     Inr (Some app_logger)"
  using C9_FromContext [where c = "(loggerKey, LoggerValue (Some request_logger)) # request_ctx"
      and l = "Some request_logger" and G = "Some app_logger"]
    C9_FromContext [where c = request_ctx and l = "Some request_logger"
      and G = "Some app_logger" and c' = "(loggerKey, LoggerValue (Some request_logger)) # request_ctx"
      and rid = "''req-123''" and core = 0 and fs = "[]"]
    C9_FromContext [where c = "[(StringKey ''RequestID'', StringValue [])]" and G = "Some app_logger"]
    C9_FromContext [where c = "[(OtherKey 7, StringValue ''req-123'')]" and G = "Some app_logger"]
  by (simp add: WithContext_def ctx_Value_def request_ctx_def app_logger_def)

section \<open>Request construction\<close>

lemma Header_Get_Set:
  "Header_Get (Header_Set k v h) key =
     (if CanonicalMIMEHeaderKey k = CanonicalMIMEHeaderKey key then v else Header_Get h key)"
  by (simp add: Header_Get_def Header_Set_def update_conv')

lemma Header_Get_Set_all:
  "Header_Get (Header_Set_all kvs h) key =
     (case last_value key kvs of Some v \<Rightarrow> v | None \<Rightarrow> Header_Get h key)"
proof (induction kvs arbitrary: h)
  case Nil
  then show ?case by simp
next
  case (Cons kv kvs)
  obtain k v where kv: "kv = (k, v)" by (cases kv)
  show ?case
    by (simp add: kv Cons.IH Header_Get_Set split: option.splits)
qed

lemma Header_Set_all_append:
  "Header_Set_all (xs @ ys) h = Header_Set_all ys (Header_Set_all xs h)"
  by (induction xs h rule: Header_Set_all.induct) simp_all

lemma Header_Get_empty: "Header_Get [] key = []"
  by (simp add: Header_Get_def)

lemma Header_Get_merged:
  "Header_Get (merged_headers st rc config) ''Content-Type'' = given_content_type st rc config"
proof -
  have "merged_headers st rc config =
        Header_Set_all (map_entries st (rc_defaultHeaders rc) @ cfg_Headers config) []"
    by (simp add: merged_headers_def Header_Set_all_append)
  then show ?thesis
    by (simp add: Header_Get_Set_all Header_Get_empty given_content_type_def split: option.splits)
qed

lemma createRequest_raw:
  assumes "http_NewRequest lib (cfg_Method config) (buildURL rc (cfg_URL config)) = None"
    and "is_raw_body (cfg_Body config)"
  shows "\<exists>req. createRequest lib st rc config = Inr req \<and>
           req_Body req = (case cfg_Body config of
                             StringBody s \<Rightarrow> Some (StringsReader s)
                           | BytesBody bs \<Rightarrow> Some (BytesReader bs)
                           | ReaderBody r \<Rightarrow> Some (CallerReader r)
                           | _ \<Rightarrow> None) \<and>
           req_Header req = merged_headers st rc config"
  using assms
  by (cases "cfg_Body config")
     (simp_all add: createRequest_def merged_headers_def is_raw_body_def Let_def)

lemma createRequest_value:
  assumes "http_NewRequest lib (cfg_Method config) (buildURL rc (cfg_URL config)) = None"
    and "cfg_Body config = ValueBody v" and "json_Marshal lib v = Inr data"
  shows "\<exists>req. createRequest lib st rc config = Inr req \<and>
           req_Body req = Some (BytesReader data) \<and>
           req_Header req =
             (if given_content_type st rc config = []
              then Header_Set ''Content-Type'' application_json (merged_headers st rc config)
              else merged_headers st rc config)"
  using assms Header_Get_merged [of st rc config]
  by (simp add: createRequest_def merged_headers_def is_raw_body_def Let_def)

text \<open>
  Claim C6, as the code has it. For a call whose request is created: a body that is a string,
  a byte slice or a reader is handed on as it is, and the header of the request is the merged
  header, with no content type added. A body of any other type is serialized by
  \<open>json.Marshal\<close> (the call fails when that fails), and \<open>Content-Type\<close> is set to
  \<open>application/json\<close> if and only if the default headers and the headers of the call give
  \<open>Content-Type\<close> no value or the empty value; a non-empty given value stays.
\<close>

theorem C6_body_and_content_type:
  assumes "http_NewRequest lib (cfg_Method config) (buildURL rc (cfg_URL config)) = None"
  shows "(cfg_Body config = StringBody s \<longrightarrow>
            (\<exists>req. createRequest lib st rc config = Inr req \<and>
               req_Body req = Some (StringsReader s) \<and>
               req_Header req = merged_headers st rc config)) \<and>
         (cfg_Body config = BytesBody bs \<longrightarrow>
            (\<exists>req. createRequest lib st rc config = Inr req \<and>
               req_Body req = Some (BytesReader bs) \<and>
               req_Header req = merged_headers st rc config)) \<and>
         (cfg_Body config = ReaderBody r \<longrightarrow>
            (\<exists>req. createRequest lib st rc config = Inr req \<and>
               req_Body req = Some (CallerReader r) \<and>
               req_Header req = merged_headers st rc config)) \<and>
         (cfg_Body config = ValueBody v \<and> json_Marshal lib v = Inr data \<longrightarrow>
            (\<exists>req. createRequest lib st rc config = Inr req \<and>
               req_Body req = Some (BytesReader data) \<and>
               (given_content_type st rc config = [] \<longrightarrow>
                  req_Header req =
                    Header_Set ''Content-Type'' application_json (merged_headers st rc config) \<and>
                  Header_Get (req_Header req) ''Content-Type'' = application_json) \<and>
               (given_content_type st rc config \<noteq> [] \<longrightarrow>
                  req_Header req = merged_headers st rc config \<and>
                  Header_Get (req_Header req) ''Content-Type'' = given_content_type st rc config))) \<and>
         (cfg_Body config = ValueBody v \<and> json_Marshal lib v = Inl err \<longrightarrow>
            createRequest lib st rc config = Inl (MarshalBodyError err))"
proof (intro conjI impI)
  show "createRequest lib st rc config = Inl (MarshalBodyError err)"
    if "cfg_Body config = ValueBody v \<and> json_Marshal lib v = Inl err"
    using that by (simp add: createRequest_def)
  show "\<exists>req. createRequest lib st rc config = Inr req \<and>
          req_Body req = Some (StringsReader s) \<and> req_Header req = merged_headers st rc config"
    if "cfg_Body config = StringBody s"
    using createRequest_raw [OF assms, of st] that by (simp add: is_raw_body_def)
  show "\<exists>req. createRequest lib st rc config = Inr req \<and>
          req_Body req = Some (BytesReader bs) \<and> req_Header req = merged_headers st rc config"
    if "cfg_Body config = BytesBody bs"
    using createRequest_raw [OF assms, of st] that by (simp add: is_raw_body_def)
  show "\<exists>req. createRequest lib st rc config = Inr req \<and>
          req_Body req = Some (CallerReader r) \<and> req_Header req = merged_headers st rc config"
    if "cfg_Body config = ReaderBody r"
    using createRequest_raw [OF assms, of st] that by (simp add: is_raw_body_def)
  show "\<exists>req. createRequest lib st rc config = Inr req \<and>
          req_Body req = Some (BytesReader data) \<and>
          (given_content_type st rc config = [] \<longrightarrow>
             req_Header req =
               Header_Set ''Content-Type'' application_json (merged_headers st rc config) \<and>
             Header_Get (req_Header req) ''Content-Type'' = application_json) \<and>
          (given_content_type st rc config \<noteq> [] \<longrightarrow>
             req_Header req = merged_headers st rc config \<and>
             Header_Get (req_Header req) ''Content-Type'' = given_content_type st rc config)"
    if h: "cfg_Body config = ValueBody v \<and> json_Marshal lib v = Inr data"
  proof -
    from h createRequest_value [OF assms, of v data st]
    obtain req where req: "createRequest lib st rc config = Inr req"
      "req_Body req = Some (BytesReader data)"
      "req_Header req =
         (if given_content_type st rc config = []
          then Header_Set ''Content-Type'' application_json (merged_headers st rc config)
          else merged_headers st rc config)"
      by blast
    show ?thesis
      using req by (auto simp: Header_Get_Set Header_Get_merged)
  qed
qed


lemma canonical_Content_Type:
  "CanonicalMIMEHeaderKey ''Content-Type'' = ''Content-Type''"
  "CanonicalMIMEHeaderKey ''content-type'' = ''Content-Type''"
  by code_simp+

lemmas request_defs = createRequest_def client_store_def simple_lib_def plain_client_def
  json_config_def
  text_config_def Build_def NewClientBuilder_def buildURL_def map_entries_def is_raw_body_def
  Header_Set_def Header_Get_def application_json_def merged_headers_def given_content_type_def
  canonical_Content_Type

text \<open>
  Claim C6 as it is written, with the content type set if and only if no such header was
  present, fails for a call that passes the header \<open>Content-Type\<close> with an empty value: the
  header is present in the headers of the call and in the merged header, and the request
  still gets \<open>application/json\<close>.
\<close>

theorem C6_empty_content_type:
  "map_of (cfg_Headers (json_config [(''Content-Type'', [])])) ''Content-Type'' = Some [] \<and>
   map_of (merged_headers client_store plain_client (json_config [(''Content-Type'', [])])) ''Content-Type'' =
     Some [''''] \<and>
   createRequest simple_lib client_store plain_client (json_config [(''Content-Type'', [])]) =
     Inr \<lparr> req_ctx = Background, req_Method = ''POST'', req_URL = ''/users'',
           req_Body = Some (BytesReader ''null''),
           req_Header = [(''Content-Type'', [''application/json''])], req_Query = None \<rparr>"
  by (simp add: request_defs)

text \<open>
  Claim C6 at a text body, at a value body without a content type, and at a value body whose
  call passes \<open>content-type: text/plain\<close>.
\<close>

theorem C6_body_and_content_type_witness:
  "createRequest simple_lib client_store plain_client text_config =
     Inr \<lparr> req_ctx = Background, req_Method = ''POST'', req_URL = ''/users'',
           req_Body = Some (StringsReader ''hello''), req_Header = [], req_Query = None \<rparr> \<and>
   createRequest simple_lib client_store plain_client (json_config []) =
     Inr \<lparr> req_ctx = Background, req_Method = ''POST'', req_URL = ''/users'',
           req_Body = Some (BytesReader ''null''),
           req_Header = [(''Content-Type'', [''application/json''])], req_Query = None \<rparr> \<and>
   createRequest simple_lib client_store plain_client (json_config [(''content-type'', ''text/plain'')]) =
     Inr \<lparr> req_ctx = Background, req_Method = ''POST'', req_URL = ''/users'',
           req_Body = Some (BytesReader ''null''),
           req_Header = [(''Content-Type'', [''text/plain''])], req_Query = None \<rparr>"
  using C6_body_and_content_type [where lib = simple_lib and st = client_store and rc = plain_client
      and config = text_config and s = "''hello''"]
    C6_body_and_content_type [where lib = simple_lib and st = client_store and rc = plain_client
      and config = "json_config []" and v = "()" and data = "''null''"]
    C6_body_and_content_type [where lib = simple_lib and st = client_store and rc = plain_client
      and config = "json_config [(''content-type'', ''text/plain'')]" and v = "()"
      and data = "''null''"]
  by (simp add: request_defs)

section \<open>Shared client configuration\<close>

lemma map_assign_frame:
  assumes "map_assign m k v st = Some st'"
  shows "length st' = length st \<and> (\<forall>a. m \<noteq> Some a \<longrightarrow> st' ! a = st ! a)"
  using assms by (auto simp: map_assign_def split: option.splits)

lemma map_assign_all_frame:
  "map_assign_all m kvs st = Some st' \<Longrightarrow>
   length st' = length st \<and> (\<forall>a. m \<noteq> Some a \<longrightarrow> st' ! a = st ! a)"
proof (induction kvs arbitrary: st)
  case Nil
  then show ?case by simp
next
  case (Cons kv kvs)
  obtain k v where kv: "kv = (k, v)" by (cases kv)
  from Cons.prems obtain st1 where s1: "map_assign m k v st = Some st1"
    and s2: "map_assign_all m kvs st1 = Some st'"
    by (auto simp: kv split: option.splits)
  from map_assign_frame [OF s1] Cons.IH [OF s2] show ?case by simp
qed

lemma map_assign_total: "\<exists>st'. map_assign (Some a) k v st = Some st'"
  by (simp add: map_assign_def)

lemma map_assign_all_total: "\<exists>st'. map_assign_all (Some a) kvs st = Some st'"
proof (induction kvs arbitrary: st)
  case Nil
  then show ?case by simp
next
  case (Cons kv kvs)
  obtain k v where kv: "kv = (k, v)" by (cases kv)
  show ?case using Cons.IH by (simp add: kv map_assign_def)
qed

lemma builder_step_frame:
  assumes "builder_step call (b, st) = Some (b', st')"
  shows "b_defaultHeaders b' = b_defaultHeaders b \<and> length st' = length st \<and>
         (\<forall>a. b_defaultHeaders b \<noteq> Some a \<longrightarrow> st' ! a = st ! a)"
proof (cases call)
  case (CallWithDefaultHeader k v)
  with assms have "map_assign (b_defaultHeaders b) k v st = Some st'" "b' = b"
    by (auto simp: WithDefaultHeader_def split: option.splits)
  with map_assign_frame show ?thesis by blast
next
  case (CallWithDefaultHeaders hs)
  with assms have "map_assign_all (b_defaultHeaders b) hs st = Some st'" "b' = b"
    by (auto simp: WithDefaultHeaders_def split: option.splits)
  with map_assign_all_frame show ?thesis by blast
qed (use assms in \<open>auto simp: WithTimeout_def WithMaxIdleConns_def WithMaxIdleConnsPerHost_def
      WithIdleConnTimeout_def WithDatadog_def WithTransport_def WithBaseURL_def WithRetry_def
      WithDefaultRetry_def WithCircuitBreaker_def WithDefaultCircuitBreaker_def\<close>)

lemma builder_step_total:
  "b_defaultHeaders b = Some a \<Longrightarrow> \<exists>r. builder_step call (b, st) = Some r"
  using map_assign_total [of a _ _ st] map_assign_all_total [of a _ st]
  by (cases call) (auto simp: WithDefaultHeader_def WithDefaultHeaders_def split: option.splits)

lemma builder_run_frame:
  "builder_run calls (b, st) = Some (b', st') \<Longrightarrow>
   b_defaultHeaders b' = b_defaultHeaders b \<and> length st' = length st \<and>
   (\<forall>a. b_defaultHeaders b \<noteq> Some a \<longrightarrow> st' ! a = st ! a)"
proof (induction calls arbitrary: b st)
  case Nil
  then show ?case by simp
next
  case (Cons c cs)
  from Cons.prems obtain b1 st1 where s1: "builder_step c (b, st) = Some (b1, st1)"
    and s2: "builder_run cs (b1, st1) = Some (b', st')"
    by (auto split: option.splits)
  from builder_step_frame [OF s1] Cons.IH [OF s2] show ?case by simp
qed

lemma builder_run_total:
  "b_defaultHeaders b = Some a \<Longrightarrow> \<exists>r. builder_run calls (b, st) = Some r"
proof (induction calls arbitrary: b st)
  case Nil
  then show ?case by simp
next
  case (Cons c cs)
  from builder_step_total [OF Cons.prems, of c st]
  obtain b1 st1 where s1: "builder_step c (b, st) = Some (b1, st1)" by auto
  from builder_step_frame [OF s1] Cons.prems have "b_defaultHeaders b1 = Some a" by simp
  from Cons.IH [OF this, of st1] s1 show ?case by simp
qed

lemma FromSharedClient_fields:
  assumes "FromSharedClient parent name url st = (b, st1)"
  shows "b_defaultHeaders b = Some (length st)"
    and "st1 = st @ [map_entries st (rc_defaultHeaders parent)]"
    and "b_timeout b = Timeout (rc_client parent)"
    and "b_retry b = rc_retry parent"
    and "b_circuitBreaker b = rc_circuitBreaker parent"
    and "b_baseURL b = (if url = [] then rc_baseURL parent else url)"
  using assms by (auto simp: FromSharedClient_def NewClientBuilder_def)

lemma client_state_frame:
  assumes "allocated st (rc_defaultHeaders rc)" "length st \<le> length st'"
    "\<forall>a < length st. st' ! a = st ! a"
  shows "client_state st' rc = client_state st rc"
  using assms by (auto simp: client_state_def allocated_def map_entries_def split: option.splits)

text \<open>
  Claim C3. For a finalized client whose header map is allocated in the store, the builder
  derived from it holds the parent's default headers, timeout, retry policy and
  circuit-breaker policy. Deriving it leaves the parent as it was, and so does every chain
  of configuration calls on the derived builder, none of which panics: the fields of the
  parent and the entries of its header map are the same afterwards, as is every map that
  existed before.
\<close>

theorem C3_shared_client:
  assumes "allocated st (rc_defaultHeaders parent)"
    and "FromSharedClient parent name url st = (b, st1)"
  shows "map_entries st1 (b_defaultHeaders b) = map_entries st (rc_defaultHeaders parent) \<and>
         b_timeout b = Timeout (rc_client parent) \<and>
         b_retry b = rc_retry parent \<and>
         b_circuitBreaker b = rc_circuitBreaker parent \<and>
         client_state st1 parent = client_state st parent \<and>
         (\<exists>b' st2. builder_run calls (b, st1) = Some (b', st2) \<and>
            client_state st2 parent = client_state st parent \<and>
            (\<forall>a < length st. st2 ! a = st ! a))"
proof -
  note f = FromSharedClient_fields [OF assms(2)]
  have old: "\<forall>a < length st. st1 ! a = st ! a"
    by (simp add: f(2) nth_append)
  have len: "length st1 = Suc (length st)"
    by (simp add: f(2))
  have entries: "map_entries st1 (b_defaultHeaders b) = map_entries st (rc_defaultHeaders parent)"
    by (simp add: f(1,2) map_entries_def)
  have state1: "client_state st1 parent = client_state st parent"
    using assms(1) old len by (intro client_state_frame) simp_all
  obtain b' st2 where run: "builder_run calls (b, st1) = Some (b', st2)"
    using builder_run_total [OF f(1), of calls st1] by auto
  from builder_run_frame [OF run]
  have fr: "length st2 = length st1" "\<forall>a. b_defaultHeaders b \<noteq> Some a \<longrightarrow> st2 ! a = st1 ! a"
    by simp_all
  have old2: "\<forall>a < length st. st2 ! a = st ! a"
    using fr(2) old f(1) by auto
  have state2: "client_state st2 parent = client_state st parent"
    using assms(1) old2 fr(1) len by (intro client_state_frame) simp_all
  show ?thesis
    using entries f(3,4,5) state1 run state2 old2 by blast
qed


lemmas shared_defs = base_store_def base_client_def plex_calls_def FromSharedClient_def
  NewClientBuilder_def Build_def WithDefaultRetry_def WithTimeout_def WithDefaultHeader_def
  map_assign_def map_entries_def client_state_def allocated_def second_def

text \<open>
  Claim C3 at a parent with an authorization header, a timeout of 20 s and the default retry
  policy, and a derived builder that overrides the timeout and adds a header.
\<close>

theorem C3_shared_client_witness:
  "b_timeout (fst (FromSharedClient base_client ''plex-service'' ''http://plex'' base_store)) =
     20 * second \<and>
   b_retry (fst (FromSharedClient base_client ''plex-service'' ''http://plex'' base_store)) =
     Some defaultRetry \<and>
   (\<exists>b' st2.
      builder_run plex_calls
        (FromSharedClient base_client ''plex-service'' ''http://plex'' base_store) = Some (b', st2) \<and>
      b_timeout b' = 30 * second \<and>
      map_entries st2 (b_defaultHeaders b') =
        [(''Authorization'', ''Bearer base-token''), (''X-Service'', ''plex'')] \<and>
      Timeout (GetInstance base_client) = 20 * second \<and>
      map_entries st2 (rc_defaultHeaders base_client) = [(''Authorization'', ''Bearer base-token'')])"
  using C3_shared_client [where st = base_store and parent = base_client
      and name = "''plex-service''" and url = "''http://plex''" and calls = plex_calls
      and b = "fst (FromSharedClient base_client ''plex-service'' ''http://plex'' base_store)"
      and ?st1.0 = "snd (FromSharedClient base_client ''plex-service'' ''http://plex'' base_store)"]
  by (simp add: shared_defs GetInstance_def)

section \<open>Merging JSON objects\<close>

lemma map_of_assign_all: "map_of (assign_all kvs r) = map_of r ++ map_of (rev kvs)"
proof (induction kvs arbitrary: r)
  case Nil
  then show ?case by simp
next
  case (Cons kv kvs)
  obtain k v where kv: "kv = (k, v)" by (cases kv)
  have "map_of (assign_all kvs (AList.update k v r)) =
        map_of (AList.update k v r) ++ map_of (rev kvs)"
    by (rule Cons.IH)
  then show ?case
    by (auto simp: kv update_conv' map_add_def fun_eq_iff split: option.splits)
qed

lemma map_of_rev_distinct: "distinct (map fst xs) \<Longrightarrow> map_of (rev xs) = map_of xs"
  by (subst map_of_inject_set) (simp_all add: rev_map [symmetric])

lemma distinct_assign_all:
  "distinct (map fst r) \<Longrightarrow> distinct (map fst (assign_all kvs r))"
  by (induction kvs r rule: assign_all.induct) (simp_all add: distinct_update)

lemma map_of_decoded: "map_of (rev (assign_all ms [])) = map_of (rev ms)"
  by (simp add: map_of_rev_distinct distinct_assign_all map_of_assign_all)

lemma merge_loop_objects:
  "list_all is_object xs \<Longrightarrow>
   \<exists>r'. merge_loop xs r = Inr r' \<and>
         map_of r' = foldl (++) (map_of r) (map (\<lambda>x. map_of (rev (object_members x))) xs)"
proof (induction xs arbitrary: r)
  case Nil
  then show ?case by simp
next
  case (Cons x xs)
  then obtain ms where x: "x = Some (JObject ms)"
    by (auto simp: is_object_def split: option.splits json.splits)
  from Cons.prems have "list_all is_object xs" by simp
  from Cons.IH [OF this, of "assign_all (assign_all ms []) r"]
  show ?case
    by (simp add: x ValidateJSON_def Unmarshal_map_def map_of_assign_all map_of_decoded)
qed

lemma merge_loop_rejects:
  "x \<in> set xs \<Longrightarrow> x = None \<or> (\<exists>v. x = Some v \<and> v \<noteq> JNull \<and> (\<forall>ms. v \<noteq> JObject ms)) \<Longrightarrow>
   \<exists>err. merge_loop xs r = Inl err"
proof (induction xs arbitrary: r)
  case Nil
  then show ?case by simp
next
  case (Cons y ys)
  show ?case
  proof (cases "\<exists>err. merge_loop [y] r = Inl err")
    case True
    then show ?thesis
      by (auto simp: ValidateJSON_def split: sum.splits if_splits)
  next
    case False
    then have "x \<noteq> y" using Cons.prems(2)
      by (cases x; cases "the x") (auto simp: ValidateJSON_def Unmarshal_map_def)
    with Cons.prems have "x \<in> set ys" by simp
    from Cons.IH [OF this Cons.prems(2)] show ?thesis
      by (auto simp: split: sum.splits)
  qed
qed

lemma MergeJSON_none: "MergeJSON [] = Inr (JObject [])"
  by (simp add: MergeJSON_def)

lemma MergeJSON_objects:
  assumes "list_all is_object xs"
  shows "\<exists>r. MergeJSON xs = Inr (JObject r) \<and>
           map_of r = foldl (++) Map.empty (map (\<lambda>x. map_of (rev (object_members x))) xs)"
proof -
  obtain r where "merge_loop xs [] = Inr r"
    "map_of r = foldl (++) (map_of []) (map (\<lambda>x. map_of (rev (object_members x))) xs)"
    using merge_loop_objects [OF assms, of "[]"] by blast
  then show ?thesis
    by (cases xs) (simp_all add: MergeJSON_def)
qed

lemma MergeJSON_rejects:
  assumes "x \<in> set xs"
    and "x = None \<or> (\<exists>v. x = Some v \<and> v \<noteq> JNull \<and> (\<forall>ms. v \<noteq> JObject ms))"
  shows "\<exists>err. MergeJSON xs = Inl err"
proof -
  obtain err where "merge_loop xs [] = Inl err"
    using merge_loop_rejects [OF assms, of "[]"] by blast
  moreover have "xs \<noteq> []" using assms(1) by auto
  ultimately show ?thesis by (simp add: MergeJSON_def)
qed

text \<open>
  Claim C4 says that merging fails when an input is not a JSON object. The inputs that are
  arrays, strings, numbers or booleans are rejected by the unmarshalling into a map, but the
  literal \<open>null\<close> is valid JSON that unmarshals into a map without an error: it is accepted
  and contributes no key. Merging the single input \<open>null\<close> gives the empty object, and
  \<open>null\<close> after an object leaves that object as it is, while an array in the same place fails.
  The lemmas above show the rest of the claim for inputs whose numbers \<open>float64\<close> represents
  exactly: no input gives the empty object, inputs that are all objects merge into the object
  in which the latest input wins for each key, and invalid inputs and the other values that
  are not objects make the merge fail.
\<close>

theorem C4_merge_accepts_null:
  "MergeJSON [Some JNull] = Inr (JObject []) \<and>
   MergeJSON [Some (JObject [(''a'', JNumber 1)]), Some JNull] =
     Inr (JObject [(''a'', JNumber 1)]) \<and>
   (\<exists>err. MergeJSON [Some (JObject [(''a'', JNumber 1)]), Some (JArray [])] = Inl err)"
  by (simp add: MergeJSON_def ValidateJSON_def Unmarshal_map_def)

end
